theory Spec2Isabelle
  imports Main "HOL-Library.Word"
begin

unbundle bit_operations_syntax

section \<open>The provider state and the event descriptors (etw-provider.h)\<close>

text \<open>
  The C++ fixed-width integers are words of the same width: \<open>uint8_t\<close> is \<open>8 word\<close>,
  \<open>uint16_t\<close> is \<open>16 word\<close>, \<open>uint32_t\<close> and \<open>int\<close> are \<open>32 word\<close>, \<open>uint64_t\<close> and
  \<open>size_t\<close> are \<open>64 word\<close>. A \<open>void*\<close> is the 64-bit address it holds (the model is of
  a 64-bit build, where \<open>kTypePointer\<close> is \<open>kTypeHexInt64\<close>).
\<close>

record GUID =
  Data1 :: "32 word"
  Data2 :: "16 word"
  Data3 :: "16 word"
  Data4 :: "8 word list"

definition kMaxTraitSize :: nat where
  "kMaxTraitSize = 40"

record ProviderState =
  regHandle :: "64 word"
  enabled :: "32 word"
  level :: "8 word"
  keywords_mask :: "64 word"
  provider_trait :: "8 word list"

text \<open>
  The field \<open>keywords\<close> of \<open>ProviderState\<close> is \<open>keywords_mask\<close> here: \<open>keywords\<close> is
  reserved by Isabelle.

  \<open>struct EventInfo {id, level, opcode, task, keywords}\<close>. The fields carry the prefix
  \<open>event_\<close> here, since \<open>level\<close> and \<open>keywords\<close> are fields of \<open>ProviderState\<close> too.
\<close>

record EventInfo =
  event_id :: "16 word"
  event_level :: "8 word"
  event_opcode :: "8 word"
  event_task :: "16 word"
  event_keywords :: "64 word"

definition kLevelNone :: "8 word" where "kLevelNone = 0"
definition kLevelFatal :: "8 word" where "kLevelFatal = 1"
definition kLevelError :: "8 word" where "kLevelError = 2"
definition kLevelWarning :: "8 word" where "kLevelWarning = 3"
definition kLevelInfo :: "8 word" where "kLevelInfo = 4"
definition kLevelVerbose :: "8 word" where "kLevelVerbose = 5"

definition kOpCodeInfo :: "8 word" where "kOpCodeInfo = 0"
definition kOpCodeStart :: "8 word" where "kOpCodeStart = 1"
definition kOpCodeStop :: "8 word" where "kOpCodeStop = 2"

definition kTypeUnicodeStr :: "8 word" where "kTypeUnicodeStr = 1"
definition kTypeAnsiStr :: "8 word" where "kTypeAnsiStr = 2"
definition kTypeInt8 :: "8 word" where "kTypeInt8 = 3"
definition kTypeUInt8 :: "8 word" where "kTypeUInt8 = 4"
definition kTypeInt16 :: "8 word" where "kTypeInt16 = 5"
definition kTypeUInt16 :: "8 word" where "kTypeUInt16 = 6"
definition kTypeInt32 :: "8 word" where "kTypeInt32 = 7"
definition kTypeUInt32 :: "8 word" where "kTypeUInt32 = 8"
definition kTypeInt64 :: "8 word" where "kTypeInt64 = 9"
definition kTypeUInt64 :: "8 word" where "kTypeUInt64 = 10"
definition kTypeFloat :: "8 word" where "kTypeFloat = 11"
definition kTypeDouble :: "8 word" where "kTypeDouble = 12"
definition kTypeBool32 :: "8 word" where "kTypeBool32 = 13"
definition kTypeHexInt32 :: "8 word" where "kTypeHexInt32 = 20"
definition kTypeHexInt64 :: "8 word" where "kTypeHexInt64 = 21"

text \<open>\<open>sizeof(void*) == 8\<close> in the build modelled.\<close>

definition kTypePointer :: "8 word" where
  "kTypePointer = kTypeHexInt64"

subsection \<open>The enable checks of \<open>EtwProvider\<close>\<close>

definition Level :: "ProviderState \<Rightarrow> 8 word" where
  "Level st = level st"

definition Keywords :: "ProviderState \<Rightarrow> 64 word" where
  "Keywords st = keywords_mask st"

text \<open>\<open>bool IsEnabled()\<close>: \<open>!state.enabled\<close> is true exactly when the field is zero.\<close>

definition IsEnabled :: "ProviderState \<Rightarrow> bool" where
  "IsEnabled st = (if enabled st = 0 then False else True)"

text \<open>
  \<open>bool IsEnabled(const EventInfo& event)\<close>. The last line converts the \<open>uint64_t\<close>
  value \<open>event.keywords & state.keywords\<close> to \<open>bool\<close>: true when it is not zero.
\<close>

definition IsEnabledFor :: "ProviderState \<Rightarrow> EventInfo \<Rightarrow> bool" where
  "IsEnabledFor st event =
     (if enabled st = 0 then False
      else if event_level event > level st then False
      else event_keywords event = 0 \<or> (event_keywords event AND keywords_mask st) \<noteq> 0)"

text \<open>\<open>UpdateState\<close>: the \<open>bool\<close> stored into the \<open>uint32_t\<close> field is 1 or 0.\<close>

definition UpdateState :: "bool \<Rightarrow> 8 word \<Rightarrow> 64 word \<Rightarrow> ProviderState \<Rightarrow> ProviderState" where
  "UpdateState isEnabled lvl kw st =
     st\<lparr>level := lvl, keywords_mask := kw, enabled := (if isEnabled then 1 else 0)\<rparr>"

text \<open>
  \<open>EtwProvider::Callback\<close> (etw-provider.cc). \<open>context\<close> points to the provider, whose
  state is the last argument here; \<open>srcId\<close> and \<open>filter\<close> are not read by the code and
  are left out.
\<close>

definition Callback :: "32 word \<Rightarrow> 8 word \<Rightarrow> 64 word \<Rightarrow> 64 word \<Rightarrow> ProviderState \<Rightarrow> ProviderState" where
  "Callback providerState lvl matchAnyKeyword allKeyword provider =
     (if providerState = 0 then UpdateState False 0 0 provider
      else if providerState = 1 then UpdateState True lvl matchAnyKeyword provider
      else provider)"

section \<open>Event metadata, arguments and the backend\<close>

text \<open>
  \<open>Field(name, type)\<close> and \<open>EventMetadata(name, fields...)\<close> are declared in
  etw-metadata.h, which is not among the sources; only their constructor calls are.
  They are the values those calls build: a named type tag, and an event name with its
  fields in the order written.
\<close>

datatype Field = Field string "8 word"

datatype EventMetadata = EventMetadata string "Field list"

fun metadata_fields :: "EventMetadata \<Rightarrow> Field list" where
  "metadata_fields (EventMetadata n fs) = fs"

fun field_type :: "Field \<Rightarrow> 8 word" where
  "field_type (Field n t) = t"

text \<open>
  An argument of a \<open>LogEventData\<close> call, by the C++ type the call site passes:
  \<open>const char*\<close>, \<open>const std::string&\<close>, \<open>const std::wstring&\<close> (UTF-16 code units),
  \<open>void*\<close>, \<open>int\<close>, \<open>uint16_t\<close>, \<open>uint32_t\<close>, \<open>uint64_t\<close>, and a \<open>Field\<close> object.
\<close>

datatype Arg =
    CStr string
  | StdString string
  | WString "16 word list"
  | Ptr "64 word"
  | Int32 "32 word"
  | UInt16 "16 word"
  | UInt32 "32 word"
  | UInt64 "64 word"
  | FieldArg Field

record TraceEvent =
  descriptor :: EventInfo
  metadata :: EventMetadata
  payload :: "Arg list"

text \<open>
  The calls made to the operating system's tracing backend, in the order made:
  \<open>EventRegister\<close> with the GUID, \<open>EventUnregister\<close> with the handle, and the write of
  one event under a registration handle.
\<close>

datatype BackendCall =
    EventRegister GUID
  | EventUnregister "64 word"
  | EventWrite "64 word" TraceEvent

section \<open>The process: the global \<open>v8Provider\<close>, the static of \<open>Register\<close>, the backend\<close>

datatype 'a pointer = Null | Live 'a | Dangling

type_synonym ScriptMapType = "64 word \<rightharpoonup> (32 word \<rightharpoonup> 16 word list)"

text \<open>
  \<open>state\<close> and \<open>isolate_script_map\<close> are the members of the global \<open>v8Provider\<close>
  (zero-initialised: the pointer starts \<open>Null\<close>); \<open>hr\<close> is the function-local static of
  \<open>EtwProvider::Register\<close>, \<open>None\<close> until its initialiser has run; \<open>backend\<close> is the list
  of calls made to the tracing backend so far, oldest first.
\<close>

record Process =
  state :: ProviderState
  isolate_script_map :: "ScriptMapType pointer"
  hr :: "32 word option"
  backend :: "BackendCall list"

datatype Error =
    InvalidParameter
  | NullDereference
  | UseAfterFree
  | DoubleFree
  | IntOverflow

text \<open>
  The process at start: \<open>V8Provider v8Provider{}\<close> is zero-initialised, the static of
  \<open>Register\<close> is not initialised yet, and no backend call has been made.
\<close>

definition initial_process :: Process where
  "initial_process =
     \<lparr>state = \<lparr>regHandle = 0, enabled = 0, level = 0, keywords_mask = 0,
               provider_trait = replicate 40 0\<rparr>,
      isolate_script_map = Null, hr = None, backend = []\<rparr>"

definition State :: "Process \<Rightarrow> ProviderState" where
  "State p = state p"

subsection \<open>\<open>Register\<close> and \<open>Unregister\<close> (etw-provider.cc)\<close>

text \<open>
  The provider trait: the \<open>uint16_t\<close> size, little-endian, in the first two bytes, then
  the name and its terminating zero; the bytes of the buffer behind it stay as they were.
\<close>

definition write_trait :: "string \<Rightarrow> 8 word list \<Rightarrow> 8 word list" where
  "write_trait providerName buf =
     (let trait_size = (of_nat (2 + length providerName + 1) :: 16 word);
          bytes = [ucast trait_size, ucast (drop_bit 8 trait_size)]
                  @ map of_char providerName @ [0]
      in bytes @ drop (length bytes) buf)"

text \<open>
  \<open>EtwProvider::Register\<close>. The operating system's \<open>EventRegister\<close> is the parameter
  \<open>os\<close>: from the GUID and the handle variable's old value it gives the status and the
  value the handle variable holds afterwards. The static \<open>hr\<close> is initialised by the
  first call only; later calls skip the initialiser and so make no backend call.
  \<open>strcpy_s\<close> into the \<open>kMaxTraitSize - 2\<close> bytes behind the size invokes the invalid
  parameter handler when the name and its terminator do not fit, which ends the process.
\<close>

definition Register ::
  "(GUID \<Rightarrow> 64 word \<Rightarrow> 32 word \<times> 64 word) \<Rightarrow> GUID \<Rightarrow> string \<Rightarrow> Process
     \<Rightarrow> Error + (32 word \<times> Process)" where
  "Register os guid providerName p =
     (let (h, p1) =
        (case hr p of
           Some h \<Rightarrow> (h, p)
         | None \<Rightarrow>
             (let (h, handle) = os guid (regHandle (state p))
              in (h, p\<lparr>state := (state p)\<lparr>regHandle := handle\<rparr>,
                       hr := Some h,
                       backend := backend p @ [EventRegister guid]\<rparr>)))
      in if length providerName + 1 > kMaxTraitSize - 2 then Inl InvalidParameter
         else Inr (h, p1\<lparr>state := (state p1)
                     \<lparr>provider_trait := write_trait providerName (provider_trait (state p1))\<rparr>\<rparr>))"

definition Unregister :: "Process \<Rightarrow> Process" where
  "Unregister p =
     (if regHandle (state p) \<noteq> 0
      then p\<lparr>backend := backend p @ [EventUnregister (regHandle (state p))],
             state := (state p)\<lparr>regHandle := 0, enabled := 0, level := 0, keywords_mask := 0\<rparr>\<rparr>
      else p)"

subsection \<open>The emission path\<close>

text \<open>
  Modelled from the spec: \<open>LogEventData\<close> is defined in etw-metadata.h, which is not
  among the sources. Section 4.3: it re-checks eligibility via the state (enabled, the
  event's level not above the state's, the event's keyword zero or intersecting the
  state's mask), and then submits descriptor, metadata and the marshalled arguments to
  the backend write call under the registration handle; it has no other effect and a
  failed write is dropped.
\<close>

definition LogEventData ::
  "ProviderState \<Rightarrow> EventInfo \<Rightarrow> EventMetadata \<Rightarrow> Arg list \<Rightarrow> Process \<Rightarrow> Process" where
  "LogEventData st event_desc event_meta args p =
     (if enabled st \<noteq> 0 \<and> event_level event_desc \<le> level st
         \<and> (event_keywords event_desc = 0 \<or> (event_keywords event_desc AND keywords_mask st) \<noteq> 0)
      then p\<lparr>backend := backend p @
               [EventWrite (regHandle st)
                  \<lparr>descriptor = event_desc, metadata = event_meta, payload = args\<rparr>]\<rparr>
      else p)"

section \<open>The V8 provider (etw-v8-provider.h and its implementation)\<close>

definition kProviderName :: string where
  "kProviderName = ''V8.js''"

definition kProviderGuid :: GUID where
  "kProviderGuid = \<lparr>Data1 = 0xca4c76aa, Data2 = 0xe822, Data3 = 0x589e,
     Data4 = [0x8f, 0x5d, 0x9f, 0xdc, 0xa8, 0xba, 0xd8, 0x13]\<rparr>"

definition kChakraGuid :: GUID where
  "kChakraGuid = \<lparr>Data1 = 0x57277741, Data2 = 0x3638, Data3 = 0x4A4B,
     Data4 = [0xBD, 0xBA, 0x0A, 0xC6, 0xE4, 0x5D, 0xA5, 0x6C]\<rparr>"

definition kJScriptRuntimeKeyword :: "64 word" where
  "kJScriptRuntimeKeyword = 1"

text \<open>The initialiser lists give id, level, opcode, task and keyword, in this order.\<close>

definition mkEventInfo :: "16 word \<Rightarrow> 8 word \<Rightarrow> 8 word \<Rightarrow> 16 word \<Rightarrow> 64 word \<Rightarrow> EventInfo" where
  "mkEventInfo i l oc t k =
     \<lparr>event_id = i, event_level = l, event_opcode = oc, event_task = t, event_keywords = k\<rparr>"

definition kMethodLoadEvent :: EventInfo where
  "kMethodLoadEvent = mkEventInfo 9 kLevelInfo 10 1 kJScriptRuntimeKeyword"
definition kSourceLoadEvent :: EventInfo where
  "kSourceLoadEvent = mkEventInfo 41 kLevelInfo 12 2 kJScriptRuntimeKeyword"
definition kMsgEvent :: EventInfo where
  "kMsgEvent = mkEventInfo 100 kLevelInfo 0 0 0"
definition kInitializePlatformEvent :: EventInfo where
  "kInitializePlatformEvent = mkEventInfo 101 kLevelInfo 0 0 0"
definition kShutdownPlatformEvent :: EventInfo where
  "kShutdownPlatformEvent = mkEventInfo 102 kLevelInfo 0 0 0"
definition kInitializeV8Event :: EventInfo where
  "kInitializeV8Event = mkEventInfo 103 kLevelInfo 0 0 0"
definition kTearDownV8Event :: EventInfo where
  "kTearDownV8Event = mkEventInfo 104 kLevelInfo 0 0 0"
definition kIsolateStartEvent :: EventInfo where
  "kIsolateStartEvent = mkEventInfo 105 kLevelInfo kOpCodeStart 0 0"
definition kIsolateStopEvent :: EventInfo where
  "kIsolateStopEvent = mkEventInfo 106 kLevelInfo kOpCodeStop 0 0"
definition kSnapshotInitStartEvent :: EventInfo where
  "kSnapshotInitStartEvent = mkEventInfo 107 kLevelInfo kOpCodeStart 0 0"
definition kSnapshotInitStopEvent :: EventInfo where
  "kSnapshotInitStopEvent = mkEventInfo 108 kLevelInfo kOpCodeStop 0 0"
definition kParsingStartEvent :: EventInfo where
  "kParsingStartEvent = mkEventInfo 109 kLevelVerbose kOpCodeStart 0 0"
definition kParsingStopEvent :: EventInfo where
  "kParsingStopEvent = mkEventInfo 110 kLevelVerbose kOpCodeStop 0 0"
definition kGenerateUnoptimizedCodeStartEvent :: EventInfo where
  "kGenerateUnoptimizedCodeStartEvent = mkEventInfo 111 kLevelVerbose kOpCodeStart 0 0"
definition kGenerateUnoptimizedCodeStopEvent :: EventInfo where
  "kGenerateUnoptimizedCodeStopEvent = mkEventInfo 112 kLevelVerbose kOpCodeStop 0 0"
definition kJitExecuteStartEvent :: EventInfo where
  "kJitExecuteStartEvent = mkEventInfo 113 kLevelVerbose kOpCodeStart 0 0"
definition kJitExecuteStopEvent :: EventInfo where
  "kJitExecuteStopEvent = mkEventInfo 114 kLevelVerbose kOpCodeStop 0 0"
definition kJitFinalizeStartEvent :: EventInfo where
  "kJitFinalizeStartEvent = mkEventInfo 115 kLevelVerbose kOpCodeStart 0 0"
definition kJitFinalizeStopEvent :: EventInfo where
  "kJitFinalizeStopEvent = mkEventInfo 116 kLevelVerbose kOpCodeStop 0 0"
definition kConcurrentMarkingStartEvent :: EventInfo where
  "kConcurrentMarkingStartEvent = mkEventInfo 117 kLevelVerbose kOpCodeStart 0 0"
definition kConcurrentMarkingStopEvent :: EventInfo where
  "kConcurrentMarkingStopEvent = mkEventInfo 118 kLevelVerbose kOpCodeStop 0 0"
definition kDeoptEvent :: EventInfo where
  "kDeoptEvent = mkEventInfo 119 kLevelVerbose 0 0 0"
definition kDisableOptEvent :: EventInfo where
  "kDisableOptEvent = mkEventInfo 120 kLevelVerbose 0 0 0"

subsection \<open>The private \<open>Log...\<close> implementations\<close>

definition LogMsg :: "string \<Rightarrow> Process \<Rightarrow> Process" where
  "LogMsg msg p =
     LogEventData (State p) kMsgEvent
       (EventMetadata ''Msg'' [Field ''Msg'' kTypeAnsiStr]) [CStr msg] p"

definition LogInitializePlatform :: "Process \<Rightarrow> Process" where
  "LogInitializePlatform p =
     LogEventData (State p) kInitializePlatformEvent
       (EventMetadata ''InitializePlatform'' []) [] p"

definition LogShutdownPlatform :: "Process \<Rightarrow> Process" where
  "LogShutdownPlatform p =
     LogEventData (State p) kShutdownPlatformEvent
       (EventMetadata ''ShutdownPlatform'' []) [] p"

definition LogInitializeV8 :: "Process \<Rightarrow> Process" where
  "LogInitializeV8 p =
     LogEventData (State p) kInitializeV8Event (EventMetadata ''InitializeV8'' []) [] p"

definition LogTearDownV8 :: "Process \<Rightarrow> Process" where
  "LogTearDownV8 p =
     LogEventData (State p) kTearDownV8Event (EventMetadata ''TearDownV8'' []) [] p"

definition LogIsolateStart :: "64 word \<Rightarrow> Process \<Rightarrow> Process" where
  "LogIsolateStart isolate p =
     LogEventData (State p) kIsolateStartEvent
       (EventMetadata ''IsolateStart'' [Field ''isolate'' kTypePointer]) [Ptr isolate] p"

definition LogIsolateStop :: "64 word \<Rightarrow> Process \<Rightarrow> Process" where
  "LogIsolateStop isolate p =
     LogEventData (State p) kIsolateStopEvent
       (EventMetadata ''IsolateStop'' [Field ''isolate'' kTypePointer]) [Ptr isolate] p"

definition LogSnapshotInitStart :: "64 word \<Rightarrow> Process \<Rightarrow> Process" where
  "LogSnapshotInitStart isolate p =
     LogEventData (State p) kSnapshotInitStartEvent
       (EventMetadata ''SnapshotInitStart'' [Field ''isolate'' kTypePointer]) [Ptr isolate] p"

definition LogSnapshotInitStop :: "64 word \<Rightarrow> Process \<Rightarrow> Process" where
  "LogSnapshotInitStop isolate p =
     LogEventData (State p) kSnapshotInitStopEvent
       (EventMetadata ''SnapshotInitStop'' [Field ''isolate'' kTypePointer]) [Ptr isolate] p"

definition LogParsingStart :: "64 word \<Rightarrow> Process \<Rightarrow> Process" where
  "LogParsingStart isolate p =
     LogEventData (State p) kParsingStartEvent
       (EventMetadata ''ParsingStart'' [Field ''isolate'' kTypePointer]) [Ptr isolate] p"

definition LogParsingStop :: "64 word \<Rightarrow> Process \<Rightarrow> Process" where
  "LogParsingStop isolate p =
     LogEventData (State p) kParsingStopEvent
       (EventMetadata ''ParsingStop'' [Field ''isolate'' kTypePointer]) [Ptr isolate] p"

definition LogGenerateUnoptimizedCodeStart :: "64 word \<Rightarrow> Process \<Rightarrow> Process" where
  "LogGenerateUnoptimizedCodeStart isolate p =
     LogEventData (State p) kGenerateUnoptimizedCodeStartEvent
       (EventMetadata ''GenerateUnoptimizedCodeStart'' [Field ''isolate'' kTypePointer])
       [Ptr isolate] p"

definition LogGenerateUnoptimizedCodeStop :: "64 word \<Rightarrow> Process \<Rightarrow> Process" where
  "LogGenerateUnoptimizedCodeStop isolate p =
     LogEventData (State p) kGenerateUnoptimizedCodeStopEvent
       (EventMetadata ''GenerateUnoptimizedCodeStop'' [Field ''isolate'' kTypePointer])
       [Ptr isolate] p"

definition LogJitExecuteStart :: "Process \<Rightarrow> Process" where
  "LogJitExecuteStart p =
     LogEventData (State p) kJitExecuteStartEvent (EventMetadata ''JitExecuteStart'' []) [] p"

definition LogJitExecuteStop :: "Process \<Rightarrow> Process" where
  "LogJitExecuteStop p =
     LogEventData (State p) kJitExecuteStopEvent (EventMetadata ''JitExecuteStop'' []) [] p"

definition LogJitFinalizeStart :: "Process \<Rightarrow> Process" where
  "LogJitFinalizeStart p =
     LogEventData (State p) kJitFinalizeStartEvent (EventMetadata ''JitFinalizeStart'' []) [] p"

definition LogJitFinalizeStop :: "Process \<Rightarrow> Process" where
  "LogJitFinalizeStop p =
     LogEventData (State p) kJitFinalizeStopEvent (EventMetadata ''JitFinalizeStop'' []) [] p"

definition LogDeopt :: "string \<Rightarrow> string \<Rightarrow> string \<Rightarrow> string \<Rightarrow> 32 word \<Rightarrow> 32 word \<Rightarrow> Process \<Rightarrow> Process" where
  "LogDeopt reason kind src fn line column p =
     LogEventData (State p) kDeoptEvent
       (EventMetadata ''Deopt''
          [Field ''reason'' kTypeAnsiStr, Field ''kind'' kTypeAnsiStr, Field ''src'' kTypeAnsiStr,
           Field ''fn'' kTypeAnsiStr, Field ''line'' kTypeInt32, Field ''column'' kTypeInt32])
       [StdString reason, StdString kind, StdString src, StdString fn, Int32 line, Int32 column] p"

text \<open>
  \<open>LogDisableOpt\<close> as written: the metadata is \<open>EventMetadata("DisableOpt")\<close>, with no
  field, and the two \<open>Field\<close> objects are the arguments of \<open>LogEventData\<close>; the
  parameters \<open>fn_name\<close> and \<open>reason\<close> are not used.
\<close>

definition LogDisableOpt :: "string \<Rightarrow> string \<Rightarrow> Process \<Rightarrow> Process" where
  "LogDisableOpt fn_name reason p =
     LogEventData (State p) kDisableOptEvent (EventMetadata ''DisableOpt'' [])
       [FieldArg (Field ''fn'' kTypeAnsiStr), FieldArg (Field ''reason'' kTypeAnsiStr)] p"

subsection \<open>The public inline wrappers\<close>

definition Msg :: "string \<Rightarrow> Process \<Rightarrow> Process" where
  "Msg msg p = (if IsEnabled (state p) then LogMsg msg p else p)"

definition InitializePlatform :: "Process \<Rightarrow> Process" where
  "InitializePlatform p = LogInitializePlatform p"

definition ShutdownPlatform :: "Process \<Rightarrow> Process" where
  "ShutdownPlatform p = LogShutdownPlatform p"

definition InitializeV8 :: "Process \<Rightarrow> Process" where
  "InitializeV8 p = LogInitializeV8 p"

definition TearDownV8 :: "Process \<Rightarrow> Process" where
  "TearDownV8 p = LogTearDownV8 p"

definition IsolateStart :: "64 word \<Rightarrow> Process \<Rightarrow> Process" where
  "IsolateStart isolate p = LogIsolateStart isolate p"

definition IsolateStop :: "64 word \<Rightarrow> Process \<Rightarrow> Process" where
  "IsolateStop isolate p = LogIsolateStop isolate p"

definition SnapshotInitStart :: "64 word \<Rightarrow> Process \<Rightarrow> Process" where
  "SnapshotInitStart isolate p = LogSnapshotInitStart isolate p"

definition SnapshotInitStop :: "64 word \<Rightarrow> Process \<Rightarrow> Process" where
  "SnapshotInitStop isolate p = LogSnapshotInitStop isolate p"

definition ParsingStart :: "64 word \<Rightarrow> Process \<Rightarrow> Process" where
  "ParsingStart isolate p = (if IsEnabled (state p) then LogParsingStart isolate p else p)"

definition ParsingStop :: "64 word \<Rightarrow> Process \<Rightarrow> Process" where
  "ParsingStop isolate p = (if IsEnabled (state p) then LogParsingStop isolate p else p)"

definition GenerateUnoptimizedCodeStart :: "64 word \<Rightarrow> Process \<Rightarrow> Process" where
  "GenerateUnoptimizedCodeStart isolate p =
     (if IsEnabled (state p) then LogGenerateUnoptimizedCodeStart isolate p else p)"

definition GenerateUnoptimizedCodeStop :: "64 word \<Rightarrow> Process \<Rightarrow> Process" where
  "GenerateUnoptimizedCodeStop isolate p =
     (if IsEnabled (state p) then LogGenerateUnoptimizedCodeStop isolate p else p)"

definition JitExecuteStart :: "Process \<Rightarrow> Process" where
  "JitExecuteStart p = (if IsEnabled (state p) then LogJitExecuteStart p else p)"

definition JitExecuteStop :: "Process \<Rightarrow> Process" where
  "JitExecuteStop p = (if IsEnabled (state p) then LogJitExecuteStop p else p)"

definition JitFinalizeStart :: "Process \<Rightarrow> Process" where
  "JitFinalizeStart p = (if IsEnabled (state p) then LogJitFinalizeStart p else p)"

definition JitFinalizeStop :: "Process \<Rightarrow> Process" where
  "JitFinalizeStop p = (if IsEnabled (state p) then LogJitFinalizeStop p else p)"

definition ConcurrentMarkingStart :: "Process \<Rightarrow> Process" where
  "ConcurrentMarkingStart p = p"

definition ConcurrentMarkingStop :: "Process \<Rightarrow> Process" where
  "ConcurrentMarkingStop p = p"

definition Deopt :: "string \<Rightarrow> string \<Rightarrow> string \<Rightarrow> string \<Rightarrow> 32 word \<Rightarrow> 32 word \<Rightarrow> Process \<Rightarrow> Process" where
  "Deopt reason kind src fn line column p = LogDeopt reason kind src fn line column p"

definition DisableOpt :: "string \<Rightarrow> string \<Rightarrow> Process \<Rightarrow> Process" where
  "DisableOpt fn_name reason p = LogDisableOpt fn_name reason p"

subsection \<open>Registration of the V8 provider\<close>

text \<open>
  \<open>RegisterEtwProvider\<close>: \<open>new ScriptMapType()\<close> is a fresh empty map, stored over
  whatever the pointer held; then \<open>Register\<close>, whose status is dropped.
\<close>

definition RegisterEtwProvider ::
  "(GUID \<Rightarrow> 64 word \<Rightarrow> 32 word \<times> 64 word) \<Rightarrow> Process \<Rightarrow> Error + Process" where
  "RegisterEtwProvider os p =
     (case Register os kChakraGuid kProviderName (p\<lparr>isolate_script_map := Live Map.empty\<rparr>) of
        Inl e \<Rightarrow> Inl e
      | Inr (h, p') \<Rightarrow> Inr p')"

text \<open>
  \<open>UnregisterEtwProvider\<close>: \<open>delete\<close> of a non-null pointer leaves the member pointing
  to the freed map (it is not reset); deleting it again is a double free.
\<close>

definition UnregisterEtwProvider :: "Process \<Rightarrow> Error + Process" where
  "UnregisterEtwProvider p =
     (let p1 = Unregister p
      in case isolate_script_map p1 of
           Null \<Rightarrow> Inr p1
         | Live m \<Rightarrow> Inr (p1\<lparr>isolate_script_map := Dangling\<rparr>)
         | Dangling \<Rightarrow> Inl DoubleFree)"

subsection \<open>The code-event translator\<close>

text \<open>
  \<open>v8::JitCodeEvent\<close> is declared in include/v8.h, which is not among the sources; the
  record has the members the handler reads. \<open>name\<close> is the byte span \<open>name.str\<close> of
  length \<open>name.len\<close>; \<open>script\<close> is \<open>None\<close> for an empty handle. Of a script the
  handler reads \<open>GetId()\<close> (an \<open>int\<close>) and \<open>GetScriptName()\<close>, a value that is a string
  (its UTF-16 code units, which \<open>Length\<close> counts and \<open>Write\<close> copies) or is not.
\<close>

datatype CodeType = BYTE_CODE | JIT_CODE

datatype EventType =
    CODE_ADDED
  | CODE_MOVED
  | CODE_REMOVED
  | CODE_ADD_LINE_POS_INFO
  | CODE_START_LINE_INFO_RECORDING
  | CODE_END_LINE_INFO_RECORDING

datatype Value = String "16 word list" | NotAString

record UnboundScript =
  GetId :: "32 word"
  GetScriptName :: Value

record JitCodeEvent =
  type :: EventType
  code_type :: CodeType
  isolate :: "64 word"
  code_start :: "64 word"
  code_len :: "64 word"
  name :: "8 word list"
  script :: "UnboundScript option"

text \<open>A wide string literal \<open>L"..."\<close> of ASCII characters, as UTF-16 code units.\<close>

definition wide :: "string \<Rightarrow> 16 word list" where
  "wide s = map of_char s"

definition source_load_event_meta :: EventMetadata where
  "source_load_event_meta =
     EventMetadata ''SourceLoad''
       [Field ''SourceID'' kTypeUInt64, Field ''ScriptContextID'' kTypePointer,
        Field ''SourceFlags'' kTypeUInt32, Field ''Url'' kTypeUnicodeStr]"

definition method_load_event_meta :: EventMetadata where
  "method_load_event_meta =
     EventMetadata ''MethodLoad''
       [Field ''ScriptContextID'' kTypePointer, Field ''MethodStartAddress'' kTypePointer,
        Field ''MethodSize'' kTypeUInt64, Field ''MethodID'' kTypeUInt32,
        Field ''MethodFlags'' kTypeUInt16, Field ''MethodAddressRangeID'' kTypeUInt16,
        Field ''SourceID'' kTypeUInt64, Field ''Line'' kTypeUInt32,
        Field ''Column'' kTypeUInt32, Field ''MethodName'' kTypeUnicodeStr]"

text \<open>
  \<open>V8Provider::LogCodeEvent\<close>. The operating system's \<open>MultiByteToWideChar\<close> is the
  parameter of that name: from the source bytes and the destination buffer (whose length
  is the capacity passed) it gives the buffer after the call. \<open>name_len\<close> and the
  buffer's size are cast to \<open>int\<close>: a name of \<open>2^31 - 1\<close> bytes or more is outside what
  the casts keep, and is an error here. The casts \<open>(uint64_t)script_id\<close> extend the
  sign. \<open>(*isolate_script_map)[script_context]\<close> dereferences the pointer and creates
  the isolate's map when absent; \<open>emplace\<close> runs only when \<open>find\<close> found nothing.
\<close>

definition LogCodeEvent ::
  "(8 word list \<Rightarrow> 16 word list \<Rightarrow> 16 word list) \<Rightarrow> JitCodeEvent \<Rightarrow> Process \<Rightarrow> Error + Process" where
  "LogCodeEvent MultiByteToWideChar event p =
     (if code_type event \<noteq> JIT_CODE then Inr p
      else if type event = CODE_ADDED then
        (if 2 ^ 31 \<le> length (name event) + 1 then Inl IntOverflow
         else
           let name_len = length (name event);
               method_name = MultiByteToWideChar (name event) (replicate (name_len + 1) 0);
               script_context = isolate event
           in case
                (case script event of
                   None \<Rightarrow> Inr (0, p)
                 | Some scr \<Rightarrow>
                     (case isolate_script_map p of
                        Null \<Rightarrow> Inl NullDereference
                      | Dangling \<Rightarrow> Inl UseAfterFree
                      | Live m \<Rightarrow>
                          (let script_id = GetId scr;
                               script_map = (case m script_context of
                                               None \<Rightarrow> Map.empty
                                             | Some sm \<Rightarrow> sm)
                           in if script_map script_id = None then
                                let url = (case GetScriptName scr of
                                             String v8str_name \<Rightarrow> v8str_name
                                           | NotAString \<Rightarrow> wide ''[unknown]'');
                                    p1 = p\<lparr>isolate_script_map :=
                                             Live (m(script_context \<mapsto> script_map(script_id \<mapsto> url)))\<rparr>
                                in Inr (script_id,
                                        LogEventData (State p1) kSourceLoadEvent source_load_event_meta
                                          [UInt64 (scast script_id), Ptr script_context, UInt32 0,
                                           WString url] p1)
                              else Inr (script_id,
                                        p\<lparr>isolate_script_map :=
                                            Live (m(script_context \<mapsto> script_map))\<rparr>))))
              of
                Inl err \<Rightarrow> Inl err
              | Inr (script_id, p2) \<Rightarrow>
                  Inr (LogEventData (State p2) kMethodLoadEvent method_load_event_meta
                         [Ptr script_context, Ptr (code_start event), UInt64 (code_len event),
                          UInt32 0, UInt16 0, UInt16 0, UInt64 (scast script_id),
                          UInt32 0, UInt32 0, WString method_name] p2))
      else Inr p)"

text \<open>\<open>V8Provider::CodeEventHandler\<close>, the static entry point, on the global provider.\<close>

definition CodeEventHandler ::
  "(8 word list \<Rightarrow> 16 word list \<Rightarrow> 16 word list) \<Rightarrow> JitCodeEvent \<Rightarrow> Process \<Rightarrow> Error + Process" where
  "CodeEventHandler MultiByteToWideChar event p =
     (if \<not> IsEnabled (state p) \<or> Level (state p) < kLevelInfo then Inr p
      else LogCodeEvent MultiByteToWideChar event p)"


section \<open>Observations used in the statements\<close>

text \<open>
  What a backend call is: a write of the source-load event (id 41) or of the method-load
  event (id 9).
\<close>

definition is_source_load :: "BackendCall \<Rightarrow> bool" where
  "is_source_load c =
     (case c of
        EventWrite h ev \<Rightarrow> event_id (descriptor ev) = event_id kSourceLoadEvent
      | _ \<Rightarrow> False)"

definition is_method_load :: "BackendCall \<Rightarrow> bool" where
  "is_method_load c =
     (case c of
        EventWrite h ev \<Rightarrow> event_id (descriptor ev) = event_id kMethodLoadEvent
      | _ \<Rightarrow> False)"

text \<open>
  The argument a written event carries for the field of a given name: the argument at the
  position the field has in the event's metadata.
\<close>

fun field_name :: "Field \<Rightarrow> string" where
  "field_name (Field n t) = n"

definition field_value :: "string \<Rightarrow> BackendCall \<Rightarrow> Arg option" where
  "field_value n c =
     (case c of
        EventWrite h ev \<Rightarrow> map_of (zip (map field_name (metadata_fields (metadata ev))) (payload ev)) n
      | _ \<Rightarrow> None)"

text \<open>
  The provider is registered when its script map is allocated; a script is announced
  when the cache of its isolate has an entry for its id.
\<close>

definition registered :: "Process \<Rightarrow> bool" where
  "registered p = (case isolate_script_map p of Live m \<Rightarrow> True | _ \<Rightarrow> False)"

definition announced :: "Process \<Rightarrow> 64 word \<Rightarrow> 32 word \<Rightarrow> bool" where
  "announced p ctx script_id =
     (case isolate_script_map p of
        Live m \<Rightarrow> (case m ctx of Some sm \<Rightarrow> sm script_id \<noteq> None | None \<Rightarrow> False)
      | _ \<Rightarrow> False)"

text \<open>
  A session listens to the code events: the provider is enabled at level Info or above
  with the runtime keyword in its mask.
\<close>

definition code_events_on :: "ProviderState \<Rightarrow> bool" where
  "code_events_on st =
     (enabled st \<noteq> 0 \<and> kLevelInfo \<le> level st
      \<and> (kJScriptRuntimeKeyword AND keywords_mask st) \<noteq> 0)"

text \<open>
  A code-added notification of JIT code for the script \<open>script_id\<close> of the isolate
  \<open>ctx\<close>, with a name short enough for the \<open>int\<close> casts.
\<close>

definition code_added_for :: "64 word \<Rightarrow> 32 word \<Rightarrow> JitCodeEvent \<Rightarrow> bool" where
  "code_added_for ctx script_id event =
     (code_type event = JIT_CODE \<and> type event = CODE_ADDED \<and> isolate event = ctx
      \<and> (case script event of Some scr \<Rightarrow> GetId scr = script_id | None \<Rightarrow> False)
      \<and> length (name event) + 1 < 2 ^ 31)"

text \<open>A list of \<open>Register\<close> calls, each with its GUID and name, one after the other.\<close>

fun Register_calls ::
  "(GUID \<Rightarrow> 64 word \<Rightarrow> 32 word \<times> 64 word) \<Rightarrow> (GUID \<times> string) list \<Rightarrow> Process \<Rightarrow> Error + Process" where
  "Register_calls os [] p = Inr p"
| "Register_calls os ((guid, providerName) # calls) p =
     (case Register os guid providerName p of
        Inl err \<Rightarrow> Inl err
      | Inr (h, p') \<Rightarrow> Register_calls os calls p')"

definition is_EventRegister :: "BackendCall \<Rightarrow> bool" where
  "is_EventRegister c = (case c of EventRegister g \<Rightarrow> True | _ \<Rightarrow> False)"

subsection \<open>The scenario of the spec's testable properties\<close>

text \<open>
  The state \<open>{enabled = true, level = Info, keywords = 0xF}\<close> under handle 1; a process
  whose provider is registered with that state and an empty cache; notifications for
  isolate \<open>0x1000\<close> and script 7; a backend whose registration succeeds with handle 1;
  and a stand-in for the operating system's decoder that widens each byte.
\<close>

definition scenario_state :: ProviderState where
  "scenario_state =
     \<lparr>regHandle = 1, enabled = 1, level = 4, keywords_mask = 0xF,
      provider_trait = replicate 40 0\<rparr>"

definition scenario_process :: Process where
  "scenario_process =
     \<lparr>state = scenario_state, isolate_script_map = Live Map.empty, hr = Some 0,
      backend = [EventRegister kChakraGuid]\<rparr>"

definition scenario_event :: "string \<Rightarrow> Value \<Rightarrow> JitCodeEvent" where
  "scenario_event method script_name =
     \<lparr>type = CODE_ADDED, code_type = JIT_CODE, isolate = 0x1000, code_start = 0x2000,
      code_len = 64, name = map of_char method,
      script = Some \<lparr>GetId = 7, GetScriptName = script_name\<rparr>\<rparr>"

definition scenario_os :: "GUID \<Rightarrow> 64 word \<Rightarrow> 32 word \<times> 64 word" where
  "scenario_os guid handle = (0, 1)"

definition widen_bytes :: "8 word list \<Rightarrow> 16 word list \<Rightarrow> 16 word list" where
  "widen_bytes bytes buf = map ucast bytes @ drop (length bytes) buf"

section \<open>Call sites against their metadata\<close>

text \<open>
  Modelled from the spec: the contract of \<open>LogEventData\<close> (section 4.3) is that the
  arguments match the metadata's field sequence in count, order and declared type;
  the marshalling that fixes which C++ type goes with which type tag is in
  etw-metadata.h, which is not among the sources. By section 4.3 and the tags' comments
  in etw-provider.h: narrow strings (\<open>const char*\<close>, \<open>std::string\<close>) go with
  \<open>kTypeAnsiStr\<close>, wide strings with \<open>kTypeUnicodeStr\<close>, pointers with \<open>kTypePointer\<close>,
  each integer with the tag of its width and sign. A \<open>Field\<close> object goes with no tag.
\<close>

fun arg_matches :: "8 word \<Rightarrow> Arg \<Rightarrow> bool" where
  "arg_matches t (CStr s) = (t = kTypeAnsiStr)"
| "arg_matches t (StdString s) = (t = kTypeAnsiStr)"
| "arg_matches t (WString w) = (t = kTypeUnicodeStr)"
| "arg_matches t (Ptr a) = (t = kTypePointer)"
| "arg_matches t (Int32 i) = (t = kTypeInt32)"
| "arg_matches t (UInt16 i) = (t = kTypeUInt16)"
| "arg_matches t (UInt32 i) = (t = kTypeUInt32)"
| "arg_matches t (UInt64 i) = (t = kTypeUInt64)"
| "arg_matches t (FieldArg f) = False"

definition args_match :: "EventMetadata \<Rightarrow> Arg list \<Rightarrow> bool" where
  "args_match event_meta args =
     list_all2 (\<lambda>f a. arg_matches (field_type f) a) (metadata_fields event_meta) args"

definition well_typed_call :: "BackendCall \<Rightarrow> bool" where
  "well_typed_call c =
     (case c of
        EventWrite h ev \<Rightarrow> args_match (metadata ev) (payload ev)
      | _ \<Rightarrow> True)"

definition well_typed_log :: "Process \<Rightarrow> bool" where
  "well_typed_log p = list_all well_typed_call (backend p)"

section \<open>The two build variants of \<open>V8Provider\<close>\<close>

text \<open>
  The public member functions that the class declares under
  \<open>defined(V8_ETW) && defined(V8_TARGET_OS_WIN)\<close> and in the \<open>#else\<close> branch, each with
  the types of its parameters in order, as etw-v8-provider.h writes them.
\<close>

datatype Variant = ETW | NO_ETW

definition public_api :: "Variant \<Rightarrow> (string \<times> string list) list" where
  "public_api v =
     [(''RegisterEtwProvider'', []),
      (''UnregisterEtwProvider'', []),
      (''Msg'', [''const char*'']),
      (''InitializePlatform'', []),
      (''ShutdownPlatform'', []),
      (''InitializeV8'', []),
      (''TearDownV8'', []),
      (''IsolateStart'', [''void*'']),
      (''IsolateStop'', [''void*'']),
      (''SnapshotInitStart'', [''void*'']),
      (''SnapshotInitStop'', [''void*'']),
      (''ParsingStart'', (case v of ETW \<Rightarrow> [''void*''] | NO_ETW \<Rightarrow> [''const char*'', ''int''])),
      (''ParsingStop'', (case v of ETW \<Rightarrow> [''void*''] | NO_ETW \<Rightarrow> [])),
      (''GenerateUnoptimizedCodeStart'', (case v of ETW \<Rightarrow> [''void*''] | NO_ETW \<Rightarrow> [])),
      (''GenerateUnoptimizedCodeStop'', (case v of ETW \<Rightarrow> [''void*''] | NO_ETW \<Rightarrow> [])),
      (''JitExecuteStart'', []),
      (''JitExecuteStop'', []),
      (''JitFinalizeStart'', []),
      (''JitFinalizeStop'', []),
      (''ConcurrentMarkingStart'', []),
      (''ConcurrentMarkingStop'', []),
      (''Deopt'', [''const std::string&'', ''const std::string&'', ''const std::string&'',
                   ''const std::string&'', ''int'', ''int'']),
      (''DisableOpt'', [''const std::string&'', ''const std::string&'']),
      (''CodeEventHandler'', [''const JitCodeEvent*''])]"

definition signature :: "Variant \<Rightarrow> string \<Rightarrow> string list option" where
  "signature v method = map_of (public_api v) method"

section \<open>The operating system's UTF-8 decoder\<close>

text \<open>
  \<open>MultiByteToWideChar\<close> is a function of the operating system, not of the program. This
  section gives it for the arguments the handler passes (code page \<open>CP_UTF8\<close>, flags 0),
  as the Unicode standard and the function's documentation describe it, so that the name
  written into a method-load event can be compared with the bytes of the notification.
  Bytes and code units are natural numbers in the codec itself.

  A continuation byte is \<open>80..BF\<close>; after the lead bytes \<open>E0\<close>, \<open>ED\<close>, \<open>F0\<close> and \<open>F4\<close> the
  second byte has a narrower range (no overlong forms, no surrogates, nothing above
  \<open>U+10FFFF\<close>).
\<close>

definition continuation :: "nat \<Rightarrow> bool" where
  "continuation b = (0x80 \<le> b \<and> b \<le> 0xBF)"

definition second_of_3 :: "nat \<Rightarrow> nat \<Rightarrow> bool" where
  "second_of_3 b0 b1 =
     (if b0 = 0xE0 then 0xA0 \<le> b1 \<and> b1 \<le> 0xBF
      else if b0 = 0xED then 0x80 \<le> b1 \<and> b1 \<le> 0x9F
      else continuation b1)"

definition second_of_4 :: "nat \<Rightarrow> nat \<Rightarrow> bool" where
  "second_of_4 b0 b1 =
     (if b0 = 0xF0 then 0x90 \<le> b1 \<and> b1 \<le> 0xBF
      else if b0 = 0xF4 then 0x80 \<le> b1 \<and> b1 \<le> 0x8F
      else continuation b1)"

text \<open>
  The UTF-16 code units of a byte sequence: a well-formed sequence of one to four bytes
  gives its code point, as one unit or as a surrogate pair; a byte that starts no
  well-formed sequence gives \<open>U+FFFD\<close>, and decoding goes on behind it.
\<close>

fun utf8_units :: "nat list \<Rightarrow> nat list" where
  "utf8_units [] = []"
| "utf8_units (b0 # bs) =
     (if b0 < 0x80 then b0 # utf8_units bs
      else if 0xC2 \<le> b0 \<and> b0 \<le> 0xDF then
        (case bs of
           b1 # r \<Rightarrow>
             if continuation b1
             then ((b0 - 0xC0) * 64 + (b1 - 0x80)) # utf8_units r
             else 0xFFFD # utf8_units bs
         | _ \<Rightarrow> 0xFFFD # utf8_units bs)
      else if 0xE0 \<le> b0 \<and> b0 \<le> 0xEF then
        (case bs of
           b1 # b2 # r \<Rightarrow>
             if second_of_3 b0 b1 \<and> continuation b2
             then ((b0 - 0xE0) * 4096 + (b1 - 0x80) * 64 + (b2 - 0x80)) # utf8_units r
             else 0xFFFD # utf8_units bs
         | _ \<Rightarrow> 0xFFFD # utf8_units bs)
      else if 0xF0 \<le> b0 \<and> b0 \<le> 0xF4 then
        (case bs of
           b1 # b2 # b3 # r \<Rightarrow>
             if second_of_4 b0 b1 \<and> continuation b2 \<and> continuation b3
             then (let cp = (b0 - 0xF0) * 262144 + (b1 - 0x80) * 4096 + (b2 - 0x80) * 64
                            + (b3 - 0x80)
                   in (0xD800 + (cp - 0x10000) div 1024)
                      # (0xDC00 + (cp - 0x10000) mod 1024)
                      # utf8_units r)
             else 0xFFFD # utf8_units bs
         | _ \<Rightarrow> 0xFFFD # utf8_units bs)
      else 0xFFFD # utf8_units bs)"

text \<open>The byte sequences that are well-formed UTF-8.\<close>

fun well_formed_utf8 :: "nat list \<Rightarrow> bool" where
  "well_formed_utf8 [] = True"
| "well_formed_utf8 (b0 # bs) =
     (if b0 < 0x80 then well_formed_utf8 bs
      else if 0xC2 \<le> b0 \<and> b0 \<le> 0xDF then
        (case bs of
           b1 # r \<Rightarrow> continuation b1 \<and> well_formed_utf8 r
         | _ \<Rightarrow> False)
      else if 0xE0 \<le> b0 \<and> b0 \<le> 0xEF then
        (case bs of
           b1 # b2 # r \<Rightarrow> second_of_3 b0 b1 \<and> continuation b2 \<and> well_formed_utf8 r
         | _ \<Rightarrow> False)
      else if 0xF0 \<le> b0 \<and> b0 \<le> 0xF4 then
        (case bs of
           b1 # b2 # b3 # r \<Rightarrow>
             second_of_4 b0 b1 \<and> continuation b2 \<and> continuation b3 \<and> well_formed_utf8 r
         | _ \<Rightarrow> False)
      else False)"

text \<open>
  The way back, as a consumer of the event re-encodes a name: the UTF-8 bytes of a
  sequence of UTF-16 code units (an unpaired surrogate gives the bytes of \<open>U+FFFD\<close>).
\<close>

fun utf16_bytes :: "nat list \<Rightarrow> nat list" where
  "utf16_bytes [] = []"
| "utf16_bytes (u # us) =
     (if u < 0x80 then u # utf16_bytes us
      else if u < 0x800 then (0xC0 + u div 64) # (0x80 + u mod 64) # utf16_bytes us
      else if 0xD800 \<le> u \<and> u < 0xDC00 then
        (case us of
           l # r \<Rightarrow>
             if 0xDC00 \<le> l \<and> l < 0xE000
             then (let cp = 0x10000 + (u - 0xD800) * 1024 + (l - 0xDC00)
                   in (0xF0 + cp div 262144) # (0x80 + cp div 4096 mod 64)
                      # (0x80 + cp div 64 mod 64) # (0x80 + cp mod 64) # utf16_bytes r)
             else 0xEF # 0xBF # 0xBD # utf16_bytes us
         | [] \<Rightarrow> [0xEF, 0xBF, 0xBD])
      else if 0xDC00 \<le> u \<and> u < 0xE000 then 0xEF # 0xBF # 0xBD # utf16_bytes us
      else (0xE0 + u div 4096) # (0x80 + u div 64 mod 64) # (0x80 + u mod 64) # utf16_bytes us)"

definition utf8_to_utf16 :: "8 word list \<Rightarrow> 16 word list" where
  "utf8_to_utf16 bytes = map of_nat (utf8_units (map unat bytes))"

definition utf16_to_utf8 :: "16 word list \<Rightarrow> 8 word list" where
  "utf16_to_utf8 units = map of_nat (utf16_bytes (map unat units))"

text \<open>
  \<open>MultiByteToWideChar(CP_UTF8, 0, src, len, dst, size)\<close>: the destination after the call.
  The call fails, and leaves the destination as it was, when \<open>len\<close> is 0 or the code
  units do not fit; otherwise the code units stand at the start of the destination.
\<close>

definition MultiByteToWideChar_UTF8 :: "8 word list \<Rightarrow> 16 word list \<Rightarrow> 16 word list" where
  "MultiByteToWideChar_UTF8 src dst =
     (let units = utf8_to_utf16 src
      in if src = [] \<or> length dst < length units then dst
         else units @ drop (length units) dst)"

text \<open>
  The text of a null-terminated wide string: the code units before the first zero.
\<close>

definition c_str :: "16 word list \<Rightarrow> 16 word list" where
  "c_str w = takeWhile (\<lambda>u. u \<noteq> 0) w"

section \<open>Properties\<close>

subsection \<open>The enable check and the controller callback\<close>

text \<open>
  Claim C2. For every provider state and every event, \<open>IsEnabled(event)\<close> is true
  exactly when \<open>enabled\<close> is set, the event's level is at most the state's level, and the
  event's keyword is zero or shares a bit with the state's keywords; with \<open>enabled\<close>
  clear the result is false whatever the level and the keywords are.
\<close>

theorem IsEnabled_event_iff:
  "IsEnabledFor st event
     = (enabled st \<noteq> 0 \<and> event_level event \<le> level st
        \<and> (event_keywords event = 0 \<or> (event_keywords event AND keywords_mask st) \<noteq> 0))
   \<and> (enabled st = 0 \<longrightarrow> \<not> IsEnabledFor st event)"
  by (auto simp: IsEnabledFor_def)

theorem IsEnabled_event_iff_witness:
  "IsEnabledFor scenario_state (mkEventInfo 1 kLevelInfo 0 0 2)
   \<and> \<not> IsEnabledFor scenario_state (mkEventInfo 1 kLevelVerbose 0 0 2)
   \<and> \<not> IsEnabledFor (scenario_state\<lparr>enabled := 0\<rparr>) (mkEventInfo 1 kLevelInfo 0 0 2)"
  using IsEnabled_event_iff [of scenario_state "mkEventInfo 1 kLevelInfo 0 0 2"]
    IsEnabled_event_iff [of scenario_state "mkEventInfo 1 kLevelVerbose 0 0 2"]
    IsEnabled_event_iff [of "scenario_state\<lparr>enabled := 0\<rparr>" "mkEventInfo 1 kLevelInfo 0 0 2"]
  by (simp add: scenario_state_def mkEventInfo_def kLevelInfo_def kLevelVerbose_def)

text \<open>
  Claim C3. The controller callback with provider state 1 (enabled) sets \<open>enabled\<close> and
  stores the level and the match-any keyword given, as they are; with provider state 0
  (disabled) it clears \<open>enabled\<close>, the level and the keywords, so that no event is
  enabled afterwards; with any other provider state it leaves the state as it was.
\<close>

theorem Callback_effect:
  "Callback 1 lvl kw allkw st = st\<lparr>level := lvl, keywords_mask := kw, enabled := 1\<rparr>
   \<and> Callback 0 lvl kw allkw st = st\<lparr>level := 0, keywords_mask := 0, enabled := 0\<rparr>
   \<and> \<not> IsEnabledFor (Callback 0 lvl kw allkw st) event
   \<and> (ps \<noteq> 0 \<and> ps \<noteq> 1 \<longrightarrow> Callback ps lvl kw allkw st = st)"
  by (simp add: Callback_def UpdateState_def IsEnabledFor_def)

theorem Callback_effect_witness:
  "Callback 1 0xFF (- 1) 0 scenario_state
     = scenario_state\<lparr>level := 0xFF, keywords_mask := - 1, enabled := 1\<rparr>
   \<and> Callback 0 5 0xF 0 scenario_state
     = scenario_state\<lparr>level := 0, keywords_mask := 0, enabled := 0\<rparr>
   \<and> \<not> IsEnabledFor (Callback 0 5 0xF 0 scenario_state) (mkEventInfo 1 kLevelInfo 0 0 2)
   \<and> Callback 2 5 0xF0 0 scenario_state = scenario_state"
proof -
  have ne: "(2 :: 32 word) \<noteq> 0 \<and> (2 :: 32 word) \<noteq> 1"
    by simp
  show ?thesis
    using ne
      Callback_effect [where lvl = "0xFF" and kw = "- 1" and allkw = 0 and st = scenario_state
        and event = "mkEventInfo 1 kLevelInfo 0 0 2" and ps = 2]
      Callback_effect [where lvl = 5 and kw = "0xF" and allkw = 0 and st = scenario_state
        and event = "mkEventInfo 1 kLevelInfo 0 0 2" and ps = 2]
      Callback_effect [where lvl = 5 and kw = "0xF0" and allkw = 0 and st = scenario_state
        and event = "mkEventInfo 1 kLevelInfo 0 0 2" and ps = 2]
    by blast
qed

subsection \<open>The gate of the code-event handler\<close>

text \<open>
  Claim C9. When the provider is enabled but its level is below Info (4), the code-event
  handler returns at once: the process is as it was, so no source-load and no
  method-load event is written, although the plain \<open>IsEnabled()\<close> check passes.
\<close>

theorem CodeEventHandler_level_gate:
  assumes "enabled (state p) \<noteq> 0" and "level (state p) < kLevelInfo"
  shows "IsEnabled (state p) \<and> CodeEventHandler mb event p = Inr p"
  using assms by (simp add: CodeEventHandler_def IsEnabled_def Level_def)

theorem CodeEventHandler_level_gate_witness:
  "IsEnabled (state (scenario_process\<lparr>state := scenario_state\<lparr>level := kLevelWarning\<rparr>\<rparr>))
   \<and> CodeEventHandler widen_bytes (scenario_event ''foo'' NotAString)
        (scenario_process\<lparr>state := scenario_state\<lparr>level := kLevelWarning\<rparr>\<rparr>)
      = Inr (scenario_process\<lparr>state := scenario_state\<lparr>level := kLevelWarning\<rparr>\<rparr>)"
proof -
  have e: "enabled (state (scenario_process\<lparr>state := scenario_state\<lparr>level := kLevelWarning\<rparr>\<rparr>)) \<noteq> 0"
    by (simp add: scenario_state_def)
  have l: "level (state (scenario_process\<lparr>state := scenario_state\<lparr>level := kLevelWarning\<rparr>\<rparr>))
             < kLevelInfo"
    by (simp add: kLevelWarning_def kLevelInfo_def)
  show ?thesis by (rule CodeEventHandler_level_gate [OF e l])
qed

subsection \<open>The code-event translator and its cache\<close>

lemma LogEventData_on:
  "code_events_on st \<Longrightarrow> event_level d = kLevelInfo \<Longrightarrow> event_keywords d = kJScriptRuntimeKeyword \<Longrightarrow>
   LogEventData st d md args p =
     p\<lparr>backend := backend p @ [EventWrite (regHandle st) \<lparr>descriptor = d, metadata = md, payload = args\<rparr>]\<rparr>"
  by (simp add: LogEventData_def code_events_on_def)

lemma kSourceLoadEvent_simps:
  "event_level kSourceLoadEvent = kLevelInfo" "event_keywords kSourceLoadEvent = kJScriptRuntimeKeyword"
  "event_id kSourceLoadEvent = 41"
  by (simp_all add: kSourceLoadEvent_def mkEventInfo_def)

lemma kMethodLoadEvent_simps:
  "event_level kMethodLoadEvent = kLevelInfo" "event_keywords kMethodLoadEvent = kJScriptRuntimeKeyword"
  "event_id kMethodLoadEvent = 9"
  by (simp_all add: kMethodLoadEvent_def mkEventInfo_def)

lemma CodeEventHandler_on:
  "code_events_on (state p) \<Longrightarrow> CodeEventHandler mb e p = LogCodeEvent mb e p"
  by (auto simp: CodeEventHandler_def code_events_on_def IsEnabled_def Level_def)

lemma LogCodeEvent_hit:
  assumes "code_added_for ctx sid e" and "announced p ctx sid" and "code_events_on (state p)"
  shows "\<exists>p' c. LogCodeEvent mb e p = Inr p' \<and> backend p' = backend p @ [c]
           \<and> is_method_load c \<and> \<not> is_source_load c
           \<and> field_value ''SourceID'' c = Some (UInt64 (scast sid))
           \<and> state p' = state p \<and> announced p' ctx sid"
proof -
  from assms(1) obtain scr where scr: "script e = Some scr" "GetId scr = sid"
    and e: "code_type e = JIT_CODE" "type e = CODE_ADDED" "isolate e = ctx"
           "\<not> (2::nat) ^ 31 \<le> length (name e) + 1"
    by (auto simp: code_added_for_def split: option.splits)
  from assms(2) obtain m sm u where m: "isolate_script_map p = Live m" "m ctx = Some sm" "sm sid = Some u"
    by (auto simp: announced_def split: pointer.splits option.splits)
  show ?thesis
    using scr e m assms(3)
    by (simp add: LogCodeEvent_def Let_def State_def LogEventData_on kMethodLoadEvent_simps
        kSourceLoadEvent_simps is_method_load_def is_source_load_def announced_def
        field_value_def source_load_event_meta_def method_load_event_meta_def)
qed

lemma LogCodeEvent_miss:
  assumes "code_added_for ctx sid e" and "registered p" and "\<not> announced p ctx sid"
    and "code_events_on (state p)"
  shows "\<exists>p' s c. LogCodeEvent mb e p = Inr p' \<and> backend p' = backend p @ [s, c]
           \<and> is_source_load s \<and> \<not> is_method_load s
           \<and> is_method_load c \<and> \<not> is_source_load c
           \<and> field_value ''SourceID'' s = Some (UInt64 (scast sid))
           \<and> field_value ''SourceID'' c = Some (UInt64 (scast sid))
           \<and> state p' = state p \<and> announced p' ctx sid"
proof -
  from assms(1) obtain scr where scr: "script e = Some scr" "GetId scr = sid"
    and e: "code_type e = JIT_CODE" "type e = CODE_ADDED" "isolate e = ctx"
           "\<not> (2::nat) ^ 31 \<le> length (name e) + 1"
    by (auto simp: code_added_for_def split: option.splits)
  from assms(2) obtain m where m: "isolate_script_map p = Live m"
    by (auto simp: registered_def split: pointer.splits)
  with assms(3) have miss: "(case m ctx of None \<Rightarrow> Map.empty | Some sm \<Rightarrow> sm) sid = None"
    by (auto simp: announced_def split: option.splits)
  show ?thesis
    using scr e m miss assms(4)
    by (simp add: LogCodeEvent_def Let_def State_def LogEventData_on kMethodLoadEvent_simps
        kSourceLoadEvent_simps is_method_load_def is_source_load_def announced_def
        field_value_def source_load_event_meta_def method_load_event_meta_def)
qed


lemma scenario_on: "code_events_on (state scenario_process)"
  by (simp add: scenario_process_def scenario_state_def code_events_on_def kLevelInfo_def kJScriptRuntimeKeyword_def)

lemma scenario_registered: "registered scenario_process"
  by (simp add: scenario_process_def registered_def)





text \<open>
  Claim C5. For a code-added notification whose script's name object is not a string
  (the provider being registered), the handler returns normally, never an error, and
  every source-load event it writes carries the sentinel \<open>[unknown]\<close> in its \<open>Url\<close>
  field; it does write one when a session listens and the script is not announced yet.
\<close>

theorem unknown_script_name_sentinel:
  assumes "code_type e = JIT_CODE" and "type e = CODE_ADDED" and "script e = Some scr"
    and "GetScriptName scr = NotAString" and "registered p" and "length (name e) + 1 < 2 ^ 31"
  shows "\<exists>p' new. CodeEventHandler mb e p = Inr p' \<and> backend p' = backend p @ new
           \<and> (\<forall>c\<in>set new. is_source_load c \<longrightarrow>
                  field_value ''Url'' c = Some (WString (wide ''[unknown]'')))
           \<and> (code_events_on (state p) \<and> \<not> announced p (isolate e) (GetId scr)
                \<longrightarrow> (\<exists>c\<in>set new. is_source_load c))"
proof -
  from assms(5) obtain m where m: "isolate_script_map p = Live m"
    by (auto simp: registered_def split: pointer.splits)
  have n: "\<not> (2::nat) ^ 31 \<le> length (name e) + 1" using assms(6) by simp
  show ?thesis
  proof (cases "\<not> IsEnabled (state p) \<or> Level (state p) < kLevelInfo")
    case True
    then have "CodeEventHandler mb e p = Inr p" by (simp add: CodeEventHandler_def)
    moreover from True have "\<not> code_events_on (state p)"
      by (auto simp: code_events_on_def IsEnabled_def Level_def split: if_splits)
    ultimately show ?thesis by (intro exI [of _ p] exI [of _ "[]"]) simp
  next
    case False
    then have h: "CodeEventHandler mb e p = LogCodeEvent mb e p"
      by (simp add: CodeEventHandler_def)
    show ?thesis
      unfolding h using assms(1-4) m n
      by (auto simp: LogCodeEvent_def Let_def State_def LogEventData_def
          kMethodLoadEvent_simps kSourceLoadEvent_simps is_method_load_def is_source_load_def
          announced_def code_events_on_def field_value_def source_load_event_meta_def
          method_load_event_meta_def
          split: option.splits)
  qed
qed

theorem unknown_script_name_sentinel_witness:
  "(\<exists>p' new.
      CodeEventHandler widen_bytes (scenario_event ''foo'' NotAString) scenario_process = Inr p'
      \<and> backend p' = backend scenario_process @ new
      \<and> (\<forall>c\<in>set new. is_source_load c \<longrightarrow>
             field_value ''Url'' c = Some (WString (wide ''[unknown]'')))
      \<and> (code_events_on (state scenario_process)
           \<and> \<not> announced scenario_process (isolate (scenario_event ''foo'' NotAString))
                 (GetId \<lparr>GetId = 7, GetScriptName = NotAString\<rparr>)
           \<longrightarrow> (\<exists>c\<in>set new. is_source_load c)))
   \<and> (case CodeEventHandler widen_bytes (scenario_event ''foo'' NotAString) scenario_process of
        Inr p' \<Rightarrow>
          map (field_value ''Url'') (backend p')
            = [None, Some (WString [0x5B, 0x75, 0x6E, 0x6B, 0x6E, 0x6F, 0x77, 0x6E, 0x5D]), None]
      | Inl err \<Rightarrow> False)"
proof -
  have h: "code_type (scenario_event ''foo'' NotAString) = JIT_CODE"
    "type (scenario_event ''foo'' NotAString) = CODE_ADDED"
    "script (scenario_event ''foo'' NotAString) = Some \<lparr>GetId = 7, GetScriptName = NotAString\<rparr>"
    "GetScriptName \<lparr>GetId = 7, GetScriptName = NotAString\<rparr> = NotAString"
    "length (name (scenario_event ''foo'' NotAString)) + 1 < 2 ^ 31"
    by (simp_all add: scenario_event_def)
  have run: "(case CodeEventHandler widen_bytes (scenario_event ''foo'' NotAString) scenario_process of
        Inr p' \<Rightarrow>
          map (field_value ''Url'') (backend p')
            = [None, Some (WString [0x5B, 0x75, 0x6E, 0x6B, 0x6E, 0x6F, 0x77, 0x6E, 0x5D]), None]
      | Inl err \<Rightarrow> False)"
    by (simp add: CodeEventHandler_def LogCodeEvent_def LogEventData_def IsEnabled_def Level_def
        State_def scenario_process_def scenario_state_def scenario_event_def kLevelInfo_def
        kSourceLoadEvent_def kMethodLoadEvent_def mkEventInfo_def kJScriptRuntimeKeyword_def
        field_value_def source_load_event_meta_def method_load_event_meta_def wide_def Let_def)
  note t = unknown_script_name_sentinel [OF h(1) h(2) h(3) h(4) scenario_registered h(5),
      of widen_bytes]
  from t run show ?thesis by (rule conjI)
qed

subsection \<open>Registration\<close>

lemma Register_latched_step:
  assumes "hr p = Some h" and "length n + 1 \<le> kMaxTraitSize - 2"
  shows "\<exists>p'. Register os g n p = Inr (h, p') \<and> backend p' = backend p \<and> hr p' = Some h
           \<and> regHandle (state p') = regHandle (state p) \<and> enabled (state p') = enabled (state p)
           \<and> level (state p') = level (state p) \<and> keywords_mask (state p') = keywords_mask (state p)
           \<and> isolate_script_map p' = isolate_script_map p"
  using assms by (simp add: Register_def)

lemma Register_first_step:
  assumes "hr p = None" and "length n + 1 \<le> kMaxTraitSize - 2"
  shows "\<exists>p'. Register os g n p = Inr (fst (os g (regHandle (state p))), p')
           \<and> backend p' = backend p @ [EventRegister g]
           \<and> hr p' = Some (fst (os g (regHandle (state p))))
           \<and> regHandle (state p') = snd (os g (regHandle (state p)))"
  using assms by (simp add: Register_def split: prod.splits)

lemma Register_calls_latched:
  assumes "hr p = Some h" and "\<forall>c\<in>set calls. length (snd c) + 1 \<le> kMaxTraitSize - 2"
  shows "\<exists>p'. Register_calls os calls p = Inr p' \<and> backend p' = backend p \<and> hr p' = Some h
           \<and> regHandle (state p') = regHandle (state p)"
  using assms
proof (induction calls arbitrary: p)
  case Nil
  then show ?case by simp
next
  case (Cons c calls)
  obtain g n where c: "c = (g, n)" by (cases c)
  with Cons.prems obtain p1 where
    s1: "Register os g n p = Inr (h, p1)" "backend p1 = backend p" "hr p1 = Some h"
        "regHandle (state p1) = regHandle (state p)"
    using Register_latched_step [of p h n os g] by auto
  with Cons.IH [of p1] Cons.prems obtain p' where
    "Register_calls os calls p1 = Inr p'" "backend p' = backend p1" "hr p' = Some h"
    "regHandle (state p') = regHandle (state p1)"
    by auto
  with s1 c show ?case by simp
qed

text \<open>
  Claim C6. In a process where \<open>Register\<close> has not run yet, any non-empty sequence of
  \<open>Register\<close> calls (with names that fit the trait buffer) makes exactly one backend
  registration call, that of the first call; the later calls add none, and the handle and
  the status stay those of the first registration.
\<close>

theorem Register_once:
  assumes "hr p = None" and "calls \<noteq> []"
    and "\<forall>c\<in>set calls. length (snd c) + 1 \<le> kMaxTraitSize - 2"
  shows "\<exists>p'. Register_calls os calls p = Inr p'
           \<and> backend p' = backend p @ [EventRegister (fst (hd calls))]
           \<and> length (filter is_EventRegister (backend p'))
               = length (filter is_EventRegister (backend p)) + 1
           \<and> regHandle (state p') = snd (os (fst (hd calls)) (regHandle (state p)))
           \<and> hr p' = Some (fst (os (fst (hd calls)) (regHandle (state p))))"
proof -
  from assms(2) obtain g n rest where calls: "calls = (g, n) # rest"
    by (cases calls) auto
  with assms obtain p1 where
    s1: "Register os g n p = Inr (fst (os g (regHandle (state p))), p1)"
        "backend p1 = backend p @ [EventRegister g]"
        "hr p1 = Some (fst (os g (regHandle (state p))))"
        "regHandle (state p1) = snd (os g (regHandle (state p)))"
    using Register_first_step [of p n os g] by auto
  from assms(3) calls have "\<forall>c\<in>set rest. length (snd c) + 1 \<le> kMaxTraitSize - 2"
    by simp
  with Register_calls_latched [OF s1(3), of rest os] obtain p' where
    s2: "Register_calls os rest p1 = Inr p'" "backend p' = backend p1"
        "hr p' = Some (fst (os g (regHandle (state p))))"
        "regHandle (state p') = regHandle (state p1)"
    by auto
  show ?thesis
    using calls s1 s2 by (simp add: is_EventRegister_def)
qed

theorem Register_once_witness:
  "(\<exists>p'. Register_calls scenario_os [(kChakraGuid, kProviderName), (kProviderGuid, ''other'')]
            initial_process = Inr p'
      \<and> backend p' = backend initial_process
           @ [EventRegister (fst (hd [(kChakraGuid, kProviderName), (kProviderGuid, ''other'')]))]
      \<and> length (filter is_EventRegister (backend p'))
           = length (filter is_EventRegister (backend initial_process)) + 1
      \<and> regHandle (state p')
           = snd (scenario_os (fst (hd [(kChakraGuid, kProviderName), (kProviderGuid, ''other'')]))
                    (regHandle (state initial_process)))
      \<and> hr p' = Some (fst (scenario_os (fst (hd [(kChakraGuid, kProviderName), (kProviderGuid, ''other'')]))
                    (regHandle (state initial_process)))))
   \<and> (case Register_calls scenario_os [(kChakraGuid, kProviderName), (kProviderGuid, ''other'')]
              initial_process of
         Inr p' \<Rightarrow> backend p' = [EventRegister kChakraGuid] \<and> regHandle (state p') = 1
                    \<and> hr p' = Some 0
       | Inl err \<Rightarrow> False)"
proof -
  have a: "hr initial_process = None" by (simp add: initial_process_def)
  have b: "[(kChakraGuid, kProviderName), (kProviderGuid, ''other'')] \<noteq> []" by simp
  have c: "\<forall>c\<in>set [(kChakraGuid, kProviderName), (kProviderGuid, ''other'')].
             length (snd c) + 1 \<le> kMaxTraitSize - 2"
    by (simp add: kProviderName_def kMaxTraitSize_def)
  have run: "(case Register_calls scenario_os [(kChakraGuid, kProviderName), (kProviderGuid, ''other'')]
              initial_process of
         Inr p' \<Rightarrow> backend p' = [EventRegister kChakraGuid] \<and> regHandle (state p') = 1
                    \<and> hr p' = Some 0
       | Inl err \<Rightarrow> False)"
    by (simp add: Register_def initial_process_def scenario_os_def kProviderName_def
        kMaxTraitSize_def)
  note t = Register_once [OF a b c, of scenario_os]
  from t run show ?thesis by (rule conjI)
qed

lemma RegisterEtwProvider_step:
  "\<exists>p1. RegisterEtwProvider os p = Inr p1 \<and> isolate_script_map p1 = Live Map.empty
     \<and> enabled (state p1) = enabled (state p) \<and> level (state p1) = level (state p)
     \<and> keywords_mask (state p1) = keywords_mask (state p)
     \<and> (hr p \<noteq> None \<longrightarrow> backend p1 = backend p \<and> hr p1 = hr p
           \<and> regHandle (state p1) = regHandle (state p))"
  by (auto simp: RegisterEtwProvider_def Register_def kProviderName_def kMaxTraitSize_def
      split: option.splits prod.splits)

text \<open>
  Claim C10. Every \<open>RegisterEtwProvider\<close> call stores a fresh empty script map, also when
  the backend registration is latched already and no backend call is made. So a script
  announced before the call, for which a notification alone would write only a
  method-load event, gets a new source-load event on its next code-added notification
  after the call.
\<close>

theorem RegisterEtwProvider_resets_cache:
  assumes "code_added_for ctx sid e" and "code_events_on (state p)" and "announced p ctx sid"
    and "hr p \<noteq> None"
  shows "(\<exists>q c. CodeEventHandler mb e p = Inr q \<and> backend q = backend p @ [c]
            \<and> is_method_load c)
       \<and> (\<exists>p1 p2 s c. RegisterEtwProvider os p = Inr p1
            \<and> isolate_script_map p1 = Live Map.empty \<and> backend p1 = backend p
            \<and> CodeEventHandler mb e p1 = Inr p2 \<and> backend p2 = backend p @ [s, c]
            \<and> is_source_load s \<and> is_method_load c)"
proof
  show "\<exists>q c. CodeEventHandler mb e p = Inr q \<and> backend q = backend p @ [c] \<and> is_method_load c"
    using LogCodeEvent_hit [OF assms(1) assms(3) assms(2), of mb] assms(2)
    by (auto simp: CodeEventHandler_on)
next
  obtain p1 where
    r: "RegisterEtwProvider os p = Inr p1" "isolate_script_map p1 = Live Map.empty"
       "enabled (state p1) = enabled (state p)" "level (state p1) = level (state p)"
       "keywords_mask (state p1) = keywords_mask (state p)" "backend p1 = backend p"
    using RegisterEtwProvider_step [of os p] assms(4) by auto
  have on: "code_events_on (state p1)"
    using assms(2) r by (simp add: code_events_on_def)
  have reg: "registered p1" and fresh: "\<not> announced p1 ctx sid"
    using r by (simp_all add: registered_def announced_def)
  obtain p2 s c where
    "LogCodeEvent mb e p1 = Inr p2" "backend p2 = backend p1 @ [s, c]"
    "is_source_load s" "is_method_load c"
    using LogCodeEvent_miss [OF assms(1) reg fresh on, of mb] by auto
  with r on show "\<exists>p1 p2 s c. RegisterEtwProvider os p = Inr p1
            \<and> isolate_script_map p1 = Live Map.empty \<and> backend p1 = backend p
            \<and> CodeEventHandler mb e p1 = Inr p2 \<and> backend p2 = backend p @ [s, c]
            \<and> is_source_load s \<and> is_method_load c"
    by (auto simp: CodeEventHandler_on)
qed

theorem RegisterEtwProvider_resets_cache_witness:
  "(\<exists>q c. CodeEventHandler widen_bytes (scenario_event ''bar'' (String (wide ''a.js'')))
             (scenario_process\<lparr>isolate_script_map :=
                Live [0x1000 \<mapsto> [7 \<mapsto> wide ''a.js'']]\<rparr>) = Inr q
          \<and> backend q = backend (scenario_process\<lparr>isolate_script_map :=
                Live [0x1000 \<mapsto> [7 \<mapsto> wide ''a.js'']]\<rparr>) @ [c]
          \<and> is_method_load c)
   \<and> (\<exists>p1 p2 s c.
          RegisterEtwProvider scenario_os
            (scenario_process\<lparr>isolate_script_map :=
                Live [0x1000 \<mapsto> [7 \<mapsto> wide ''a.js'']]\<rparr>) = Inr p1
          \<and> isolate_script_map p1 = Live Map.empty
          \<and> backend p1 = backend (scenario_process\<lparr>isolate_script_map :=
                Live [0x1000 \<mapsto> [7 \<mapsto> wide ''a.js'']]\<rparr>)
          \<and> CodeEventHandler widen_bytes (scenario_event ''bar'' (String (wide ''a.js''))) p1 = Inr p2
          \<and> backend p2 = backend (scenario_process\<lparr>isolate_script_map :=
                Live [0x1000 \<mapsto> [7 \<mapsto> wide ''a.js'']]\<rparr>) @ [s, c]
          \<and> is_source_load s \<and> is_method_load c)"
proof -
  have a: "code_added_for 0x1000 7 (scenario_event ''bar'' (String (wide ''a.js'')))"
    by (simp add: scenario_event_def code_added_for_def)
  have b: "code_events_on (state (scenario_process\<lparr>isolate_script_map :=
                Live [0x1000 \<mapsto> [7 \<mapsto> wide ''a.js'']]\<rparr>))"
    using scenario_on by simp
  have c: "announced (scenario_process\<lparr>isolate_script_map :=
                Live [0x1000 \<mapsto> [7 \<mapsto> wide ''a.js'']]\<rparr>) 0x1000 7"
    by (simp add: announced_def)
  have d: "hr (scenario_process\<lparr>isolate_script_map :=
                Live [0x1000 \<mapsto> [7 \<mapsto> wide ''a.js'']]\<rparr>) \<noteq> None"
    by (simp add: scenario_process_def)
  show ?thesis by (rule RegisterEtwProvider_resets_cache [OF a b c d])
qed

subsection \<open>The event catalog's call sites\<close>

text \<open>
  Every call site but that of \<open>LogDisableOpt\<close> passes arguments that match its metadata:
  a log of well-typed writes stays one.
\<close>

lemma LogEventData_well_typed:
  "args_match md args \<Longrightarrow> well_typed_log p \<Longrightarrow> well_typed_log (LogEventData st d md args p)"
  by (simp add: LogEventData_def well_typed_log_def well_typed_call_def)

lemma catalog_well_typed:
  assumes "well_typed_log p"
  shows "well_typed_log (Msg msg p)"
    and "well_typed_log (InitializePlatform p)"
    and "well_typed_log (ShutdownPlatform p)"
    and "well_typed_log (InitializeV8 p)"
    and "well_typed_log (TearDownV8 p)"
    and "well_typed_log (IsolateStart i p)"
    and "well_typed_log (IsolateStop i p)"
    and "well_typed_log (SnapshotInitStart i p)"
    and "well_typed_log (SnapshotInitStop i p)"
    and "well_typed_log (ParsingStart i p)"
    and "well_typed_log (ParsingStop i p)"
    and "well_typed_log (GenerateUnoptimizedCodeStart i p)"
    and "well_typed_log (GenerateUnoptimizedCodeStop i p)"
    and "well_typed_log (JitExecuteStart p)"
    and "well_typed_log (JitExecuteStop p)"
    and "well_typed_log (JitFinalizeStart p)"
    and "well_typed_log (JitFinalizeStop p)"
    and "well_typed_log (Deopt reason kind src fn line column p)"
  using assms
  by (simp_all add: Msg_def InitializePlatform_def ShutdownPlatform_def InitializeV8_def
      TearDownV8_def IsolateStart_def IsolateStop_def SnapshotInitStart_def SnapshotInitStop_def
      ParsingStart_def ParsingStop_def GenerateUnoptimizedCodeStart_def
      GenerateUnoptimizedCodeStop_def JitExecuteStart_def JitExecuteStop_def JitFinalizeStart_def
      JitFinalizeStop_def Deopt_def
      LogMsg_def LogInitializePlatform_def LogShutdownPlatform_def LogInitializeV8_def
      LogTearDownV8_def LogIsolateStart_def LogIsolateStop_def LogSnapshotInitStart_def
      LogSnapshotInitStop_def LogParsingStart_def LogParsingStop_def
      LogGenerateUnoptimizedCodeStart_def LogGenerateUnoptimizedCodeStop_def
      LogJitExecuteStart_def LogJitExecuteStop_def LogJitFinalizeStart_def LogJitFinalizeStop_def
      LogDeopt_def LogEventData_well_typed args_match_def)

lemma LogCodeEvent_well_typed:
  assumes "well_typed_log p" and "LogCodeEvent mb e p = Inr p'"
  shows "well_typed_log p'"
  using assms
  by (auto simp: LogCodeEvent_def Let_def LogEventData_def well_typed_log_def well_typed_call_def
      args_match_def source_load_event_meta_def method_load_event_meta_def
      split: if_splits option.splits pointer.splits)

text \<open>
  Claim C4. The claim is that at every call site of the catalog the arguments of
  \<open>LogEventData\<close> match the event's metadata in count, order and type. The call site in
  \<open>LogDisableOpt\<close> does not: with a session listening at level Verbose, \<open>DisableOpt\<close>
  writes an event whose metadata declares no field and whose arguments are two \<open>Field\<close>
  objects.
\<close>

theorem DisableOpt_arguments_mismatch:
  "well_typed_log (scenario_process\<lparr>state := scenario_state\<lparr>level := kLevelVerbose\<rparr>\<rparr>)
   \<and> backend (DisableOpt ''f'' ''too many deopts''
        (scenario_process\<lparr>state := scenario_state\<lparr>level := kLevelVerbose\<rparr>\<rparr>))
     = [EventRegister kChakraGuid,
        EventWrite 1
          \<lparr>descriptor = kDisableOptEvent, metadata = EventMetadata ''DisableOpt'' [],
           payload = [FieldArg (Field ''fn'' kTypeAnsiStr), FieldArg (Field ''reason'' kTypeAnsiStr)]\<rparr>]
   \<and> \<not> well_typed_log (DisableOpt ''f'' ''too many deopts''
        (scenario_process\<lparr>state := scenario_state\<lparr>level := kLevelVerbose\<rparr>\<rparr>))"
  by (simp add: DisableOpt_def LogDisableOpt_def LogEventData_def State_def scenario_process_def
      scenario_state_def kLevelVerbose_def kDisableOptEvent_def mkEventInfo_def
      well_typed_log_def well_typed_call_def args_match_def)

subsection \<open>The no-op build variant\<close>

text \<open>
  Claim C8. The claim is that the no-op variant declares every public operation with the
  parameter list of the functional variant. Four operations differ: \<open>ParsingStart\<close>,
  \<open>ParsingStop\<close>, \<open>GenerateUnoptimizedCodeStart\<close> and \<open>GenerateUnoptimizedCodeStop\<close> take
  one \<open>void*\<close> in the functional variant, and \<open>(const char*, int)\<close> or nothing in the
  no-op variant; all the others agree.
\<close>

theorem no_op_variant_signatures_differ:
  "signature ETW ''ParsingStart'' = Some [''void*'']
   \<and> signature NO_ETW ''ParsingStart'' = Some [''const char*'', ''int'']
   \<and> signature ETW ''ParsingStop'' = Some [''void*'']
   \<and> signature NO_ETW ''ParsingStop'' = Some []
   \<and> signature ETW ''GenerateUnoptimizedCodeStart'' = Some [''void*'']
   \<and> signature NO_ETW ''GenerateUnoptimizedCodeStart'' = Some []
   \<and> signature ETW ''GenerateUnoptimizedCodeStop'' = Some [''void*'']
   \<and> signature NO_ETW ''GenerateUnoptimizedCodeStop'' = Some []
   \<and> filter (\<lambda>m. signature ETW m \<noteq> signature NO_ETW m) (map fst (public_api ETW))
       = [''ParsingStart'', ''ParsingStop'', ''GenerateUnoptimizedCodeStart'',
          ''GenerateUnoptimizedCodeStop'']"
  by (simp add: signature_def public_api_def)

subsection \<open>Decoding a name and encoding it again\<close>

text \<open>
  Each well-formed sequence of two, three or four bytes is what the encoder gives back
  for the code units the decoder made of it.
\<close>

lemma enc1: "b0 < 0x80 \<Longrightarrow> utf16_bytes (b0 # us) = b0 # utf16_bytes us"
  by simp

lemma enc2:
  assumes "0xC2 \<le> b0" and "b0 \<le> 0xDF" and "continuation b1"
  shows "utf16_bytes (((b0 - 0xC0) * 64 + (b1 - 0x80)) # us) = b0 # b1 # utf16_bytes us"
proof -
  obtain h l where h: "b0 = 0xC0 + h" "2 \<le> h" "h < 32" and l: "b1 = 0x80 + l" "l < 64"
    using assms by (auto simp: continuation_def intro: that [of "b0 - 0xC0" "b1 - 0x80"])
  have u: "(b0 - 0xC0) * 64 + (b1 - 0x80) = h * 64 + l" using h l by simp
  have "\<not> h * 64 + l < 0x80" "h * 64 + l < 0x800" "(h * 64 + l) div 64 = h" "(h * 64 + l) mod 64 = l"
    using h l by simp_all
  then show ?thesis unfolding u using h l by simp
qed


lemma divmod_digit:
  fixes q r d :: nat
  assumes "r < d"
  shows "(q * d + r) div d = q" and "(q * d + r) mod d = r"
  using assms by simp_all

lemma digits3:
  fixes h m l :: nat
  assumes "m < 64" and "l < 64"
  shows "(h * 4096 + m * 64 + l) div 4096 = h"
    and "(h * 4096 + m * 64 + l) div 64 mod 64 = m"
    and "(h * 4096 + m * 64 + l) mod 64 = l"
proof -
  have e1: "h * 4096 + m * 64 + l = h * 4096 + (m * 64 + l)" by simp
  have e2: "h * 4096 + m * 64 + l = (h * 64 + m) * 64 + l" by simp
  have b: "m * 64 + l < 4096" using assms by simp
  show "(h * 4096 + m * 64 + l) div 4096 = h"
    unfolding e1 using b by (rule divmod_digit(1))
  have "(h * 4096 + m * 64 + l) div 64 = h * 64 + m"
    unfolding e2 using assms(2) by (rule divmod_digit(1))
  then show "(h * 4096 + m * 64 + l) div 64 mod 64 = m"
    using assms(1) by (simp only: divmod_digit(2))
  show "(h * 4096 + m * 64 + l) mod 64 = l"
    unfolding e2 using assms(2) by (rule divmod_digit(2))
qed

lemma digits4:
  fixes h m k l :: nat
  assumes "m < 64" and "k < 64" and "l < 64"
  shows "(h * 262144 + m * 4096 + k * 64 + l) div 262144 = h"
    and "(h * 262144 + m * 4096 + k * 64 + l) div 4096 mod 64 = m"
    and "(h * 262144 + m * 4096 + k * 64 + l) div 64 mod 64 = k"
    and "(h * 262144 + m * 4096 + k * 64 + l) mod 64 = l"
proof -
  have e1: "h * 262144 + m * 4096 + k * 64 + l = h * 262144 + (m * 4096 + k * 64 + l)" by simp
  have e2: "h * 262144 + m * 4096 + k * 64 + l = (h * 64 + m) * 4096 + (k * 64 + l)" by simp
  have e3: "h * 262144 + m * 4096 + k * 64 + l = ((h * 64 + m) * 64 + k) * 64 + l" by simp
  have b1: "m * 4096 + k * 64 + l < 262144" using assms by simp
  have b2: "k * 64 + l < 4096" using assms by simp
  show "(h * 262144 + m * 4096 + k * 64 + l) div 262144 = h"
    unfolding e1 using b1 by (rule divmod_digit(1))
  have "(h * 262144 + m * 4096 + k * 64 + l) div 4096 = h * 64 + m"
    unfolding e2 using b2 by (rule divmod_digit(1))
  then show "(h * 262144 + m * 4096 + k * 64 + l) div 4096 mod 64 = m"
    using assms(1) by (simp only: divmod_digit(2))
  have "(h * 262144 + m * 4096 + k * 64 + l) div 64 = (h * 64 + m) * 64 + k"
    unfolding e3 using assms(3) by (rule divmod_digit(1))
  then show "(h * 262144 + m * 4096 + k * 64 + l) div 64 mod 64 = k"
    using assms(2) by (simp only: divmod_digit(2))
  show "(h * 262144 + m * 4096 + k * 64 + l) mod 64 = l"
    unfolding e3 using assms(3) by (rule divmod_digit(2))
qed

lemma enc3:
  assumes "0xE0 \<le> b0" and "b0 \<le> 0xEF" and "second_of_3 b0 b1" and "continuation b2"
  shows "utf16_bytes (((b0 - 0xE0) * 4096 + (b1 - 0x80) * 64 + (b2 - 0x80)) # us)
           = b0 # b1 # b2 # utf16_bytes us"
proof -
  obtain h m l where h: "b0 = 0xE0 + h" "h < 16" and m: "b1 = 0x80 + m" "m < 64"
    and l: "b2 = 0x80 + l" "l < 64"
    using assms
    by (auto simp: continuation_def second_of_3_def split: if_splits
        intro: that [of "b0 - 0xE0" "b1 - 0x80" "b2 - 0x80"])
  have lo: "h = 0 \<Longrightarrow> 32 \<le> m" and hi: "h = 13 \<Longrightarrow> m < 32"
    using assms(3) h m by (auto simp: second_of_3_def continuation_def split: if_splits)
  define u where "u = h * 4096 + m * 64 + l"
  have u: "(b0 - 0xE0) * 4096 + (b1 - 0x80) * 64 + (b2 - 0x80) = u"
    using h m l by (simp add: u_def)
  have r1: "\<not> u < 0x800"
    using lo h m l unfolding u_def by (cases "h = 0") auto
  have r2: "\<not> (0xD800 \<le> u \<and> u < 0xE000)"
  proof -
    consider "h < 13" | "h = 13" | "13 < h" by linarith
    then show ?thesis
    proof cases
      case 1 then show ?thesis using m l unfolding u_def by simp
    next
      case 2 then show ?thesis using hi m l unfolding u_def by simp
    next
      case 3 then show ?thesis using m l unfolding u_def by simp
    qed
  qed
  have d: "u div 4096 = h" "u div 64 mod 64 = m" "u mod 64 = l"
    unfolding u_def using digits3 [OF m(2) l(2), of h] by blast+
  have r0: "\<not> u < 0x80" using r1 by simp
  have r3: "\<not> (0xD800 \<le> u \<and> u < 0xDC00)" "\<not> (0xDC00 \<le> u \<and> u < 0xE000)"
    using r2 by linarith+
  have "utf16_bytes (u # us)
          = (0xE0 + u div 4096) # (0x80 + u div 64 mod 64) # (0x80 + u mod 64) # utf16_bytes us"
    using r0 r1 r3 by auto
  then show ?thesis
    unfolding u using d h m l by simp
qed

lemma enc4:
  assumes "0xF0 \<le> b0" and "b0 \<le> 0xF4" and "second_of_4 b0 b1" and "continuation b2"
    and "continuation b3"
  shows "utf16_bytes
           ((0xD800 + ((b0 - 0xF0) * 262144 + (b1 - 0x80) * 4096 + (b2 - 0x80) * 64
                       + (b3 - 0x80) - 0x10000) div 1024)
            # (0xDC00 + ((b0 - 0xF0) * 262144 + (b1 - 0x80) * 4096 + (b2 - 0x80) * 64
                       + (b3 - 0x80) - 0x10000) mod 1024)
            # us)
           = b0 # b1 # b2 # b3 # utf16_bytes us"
proof -
  obtain h m k l where h: "b0 = 0xF0 + h" "h < 5" and m: "b1 = 0x80 + m" "m < 64"
    and k: "b2 = 0x80 + k" "k < 64" and l: "b3 = 0x80 + l" "l < 64"
    using assms
    by (auto simp: continuation_def second_of_4_def split: if_splits
        intro: that [of "b0 - 0xF0" "b1 - 0x80" "b2 - 0x80" "b3 - 0x80"])
  have lo: "h = 0 \<Longrightarrow> 16 \<le> m" and hi: "h = 4 \<Longrightarrow> m < 16"
    using assms(3) h m by (auto simp: second_of_4_def continuation_def split: if_splits)
  define cp where "cp = h * 262144 + m * 4096 + k * 64 + l"
  have cp: "(b0 - 0xF0) * 262144 + (b1 - 0x80) * 4096 + (b2 - 0x80) * 64 + (b3 - 0x80) = cp"
    using h m k l by (simp add: cp_def)
  have ge: "0x10000 \<le> cp"
    using lo h m unfolding cp_def by (cases "h = 0") auto
  have le: "cp < 0x110000"
  proof (cases "h = 4")
    case True then show ?thesis using hi k l unfolding cp_def by simp
  next
    case False then show ?thesis using h m k l unfolding cp_def by simp
  qed
  define v where "v = cp - 0x10000"
  have v: "v < 0x100000" "cp = 0x10000 + v" using ge le by (simp_all add: v_def)
  define a where "a = 0xD800 + v div 1024"
  define b where "b = 0xDC00 + v mod 1024"
  have a: "\<not> a < 0x80" "\<not> a < 0x800" "0xD800 \<le> a" "a < 0xDC00"
    using v(1) by (simp_all add: a_def)
  have b: "0xDC00 \<le> b" "b < 0xE000"
    by (simp_all add: b_def)
  have recomb: "0x10000 + (a - 0xD800) * 1024 + (b - 0xDC00) = cp"
    using v by (simp add: a_def b_def)
  have d: "cp div 262144 = h" "cp div 4096 mod 64 = m" "cp div 64 mod 64 = k" "cp mod 64 = l"
    unfolding cp_def using digits4 [OF m(2) k(2) l(2), of h] by blast+
  have "utf16_bytes (a # b # us) = b0 # b1 # b2 # b3 # utf16_bytes us"
    using a b recomb d h m k l by (simp add: Let_def)
  then show ?thesis
    by (simp only: cp a_def b_def v_def)
qed


lemma utf16_bytes_utf8_units:
  "well_formed_utf8 bs \<Longrightarrow> utf16_bytes (utf8_units bs) = bs"
proof (induction bs rule: well_formed_utf8.induct)
  case 1
  show ?case by simp
next
  case (2 b0 bs)
  consider (one) "b0 < 0x80"
    | (two) "\<not> b0 < 0x80" "0xC2 \<le> b0 \<and> b0 \<le> 0xDF"
    | (three) "\<not> b0 < 0x80" "\<not> (0xC2 \<le> b0 \<and> b0 \<le> 0xDF)" "0xE0 \<le> b0 \<and> b0 \<le> 0xEF"
    | (four) "\<not> b0 < 0x80" "\<not> (0xC2 \<le> b0 \<and> b0 \<le> 0xDF)" "\<not> (0xE0 \<le> b0 \<and> b0 \<le> 0xEF)"
        "0xF0 \<le> b0 \<and> b0 \<le> 0xF4"
    | (none) "\<not> b0 < 0x80" "\<not> (0xC2 \<le> b0 \<and> b0 \<le> 0xDF)" "\<not> (0xE0 \<le> b0 \<and> b0 \<le> 0xEF)"
        "\<not> (0xF0 \<le> b0 \<and> b0 \<le> 0xF4)"
    by blast
  then show ?case
  proof cases
    case one
    with 2 have "utf16_bytes (utf8_units bs) = bs" by simp
    with one show ?thesis by (simp only: utf8_units.simps if_True enc1)
  next
    case two
    with "2.prems" obtain b1 r where bs: "bs = b1 # r" and c: "continuation b1"
      and wf: "well_formed_utf8 r"
      by (cases bs) auto
    from "2.IH"(2) [OF two(1) two(2) bs] wf have ih: "utf16_bytes (utf8_units r) = r" by simp
    have "utf8_units (b0 # bs) = ((b0 - 0xC0) * 64 + (b1 - 0x80)) # utf8_units r"
      using two bs c by simp
    then show ?thesis
      using enc2 [of b0 b1 "utf8_units r"] two c ih bs by simp
  next
    case three
    with "2.prems" obtain b1 b2 r where bs: "bs = b1 # b2 # r" and c: "second_of_3 b0 b1"
      "continuation b2" and wf: "well_formed_utf8 r"
      by (cases bs; cases "tl bs") auto
    from "2.IH"(3) [OF three(1) three(2) three(3) bs refl] wf
    have ih: "utf16_bytes (utf8_units r) = r" by simp
    have "utf8_units (b0 # bs)
            = ((b0 - 0xE0) * 4096 + (b1 - 0x80) * 64 + (b2 - 0x80)) # utf8_units r"
      using three bs c by simp
    then show ?thesis
      using enc3 [of b0 b1 b2 "utf8_units r"] three c ih bs by simp
  next
    case four
    with "2.prems" obtain b1 b2 b3 r where bs: "bs = b1 # b2 # b3 # r"
      and c: "second_of_4 b0 b1" "continuation b2" "continuation b3"
      and wf: "well_formed_utf8 r"
      by (cases bs; cases "tl bs"; cases "tl (tl bs)") auto
    from "2.IH"(4) [OF four(1) four(2) four(3) four(4) bs refl refl] wf
    have ih: "utf16_bytes (utf8_units r) = r" by simp
    have "utf8_units (b0 # bs)
            = (0xD800 + ((b0 - 0xF0) * 262144 + (b1 - 0x80) * 4096 + (b2 - 0x80) * 64
                       + (b3 - 0x80) - 0x10000) div 1024)
            # (0xDC00 + ((b0 - 0xF0) * 262144 + (b1 - 0x80) * 4096 + (b2 - 0x80) * 64
                       + (b3 - 0x80) - 0x10000) mod 1024)
            # utf8_units r"
      using four bs c by (simp add: Let_def)
    then show ?thesis
      using enc4 [of b0 b1 b2 b3 "utf8_units r"] four c ih bs by simp
  next
    case none
    with "2.prems" show ?thesis by simp
  qed
qed


lemma unit2_bounds:
  assumes "0xC2 \<le> b0" and "b0 \<le> 0xDF" and "continuation b1"
  shows "(b0 - 0xC0) * 64 + (b1 - 0x80) \<noteq> 0" and "(b0 - 0xC0) * 64 + (b1 - 0x80) < 65536"
proof -
  obtain h l where h: "b0 = 0xC0 + h" "2 \<le> h" "h < 32" and l: "b1 = 0x80 + l" "l < 64"
    using assms by (auto simp: continuation_def intro: that [of "b0 - 0xC0" "b1 - 0x80"])
  show "(b0 - 0xC0) * 64 + (b1 - 0x80) \<noteq> 0" "(b0 - 0xC0) * 64 + (b1 - 0x80) < 65536"
    using h l by simp_all
qed

lemma unit3_bounds:
  assumes "0xE0 \<le> b0" and "b0 \<le> 0xEF" and "second_of_3 b0 b1" and "continuation b2"
  shows "(b0 - 0xE0) * 4096 + (b1 - 0x80) * 64 + (b2 - 0x80) \<noteq> 0"
    and "(b0 - 0xE0) * 4096 + (b1 - 0x80) * 64 + (b2 - 0x80) < 65536"
proof -
  obtain h m l where h: "b0 = 0xE0 + h" "h < 16" and m: "b1 = 0x80 + m" "m < 64"
    and l: "b2 = 0x80 + l" "l < 64"
    using assms
    by (auto simp: continuation_def second_of_3_def split: if_splits
        intro: that [of "b0 - 0xE0" "b1 - 0x80" "b2 - 0x80"])
  have lo: "h = 0 \<Longrightarrow> 32 \<le> m"
    using assms(3) h m by (auto simp: second_of_3_def continuation_def split: if_splits)
  show "(b0 - 0xE0) * 4096 + (b1 - 0x80) * 64 + (b2 - 0x80) \<noteq> 0"
    using lo h m l by (cases "h = 0") auto
  show "(b0 - 0xE0) * 4096 + (b1 - 0x80) * 64 + (b2 - 0x80) < 65536"
    using h m l by simp
qed

lemma utf8_units_Cons:
  "\<exists>us n. utf8_units (b0 # bs) = us @ utf8_units (drop n bs)
      \<and> length us \<le> Suc n \<and> n \<le> length bs
      \<and> (\<forall>u\<in>set us. u < 65536 \<and> (b0 \<noteq> 0 \<longrightarrow> u \<noteq> 0))"
proof -
  have bad: ?thesis if "utf8_units (b0 # bs) = 0xFFFD # utf8_units bs"
    using that by (intro exI [of _ "[0xFFFD]"] exI [of _ 0]) simp
  consider (one) "b0 < 0x80"
    | (two) "\<not> b0 < 0x80" "0xC2 \<le> b0 \<and> b0 \<le> 0xDF"
    | (three) "\<not> b0 < 0x80" "\<not> (0xC2 \<le> b0 \<and> b0 \<le> 0xDF)" "0xE0 \<le> b0 \<and> b0 \<le> 0xEF"
    | (four) "\<not> b0 < 0x80" "\<not> (0xC2 \<le> b0 \<and> b0 \<le> 0xDF)" "\<not> (0xE0 \<le> b0 \<and> b0 \<le> 0xEF)"
        "0xF0 \<le> b0 \<and> b0 \<le> 0xF4"
    | (none) "\<not> b0 < 0x80" "\<not> (0xC2 \<le> b0 \<and> b0 \<le> 0xDF)" "\<not> (0xE0 \<le> b0 \<and> b0 \<le> 0xEF)"
        "\<not> (0xF0 \<le> b0 \<and> b0 \<le> 0xF4)"
    by blast
  then show ?thesis
  proof cases
    case one
    then show ?thesis by (intro exI [of _ "[b0]"] exI [of _ 0]) simp
  next
    case two
    show ?thesis
    proof (cases "\<exists>b1 r. bs = b1 # r \<and> continuation b1")
      case True
      then obtain b1 r where bs: "bs = b1 # r" and c: "continuation b1" by blast
      define u where "u = (b0 - 0xC0) * 64 + (b1 - 0x80)"
      have "utf8_units (b0 # bs) = u # utf8_units r"
        using two bs c by (simp add: u_def)
      moreover from two have rng: "0xC2 \<le> b0" "b0 \<le> 0xDF" by simp_all
      have "u \<noteq> 0" "u < 65536"
        unfolding u_def by (rule unit2_bounds [OF rng c])+
      ultimately show ?thesis
        using bs by (intro exI [of _ "[u]"] exI [of _ 1]) simp
    next
      case False
      then have "utf8_units (b0 # bs) = 0xFFFD # utf8_units bs"
        using two by (cases bs) auto
      then show ?thesis by (rule bad)
    qed
  next
    case three
    show ?thesis
    proof (cases "\<exists>b1 b2 r. bs = b1 # b2 # r \<and> second_of_3 b0 b1 \<and> continuation b2")
      case True
      then obtain b1 b2 r where bs: "bs = b1 # b2 # r" and c: "second_of_3 b0 b1" "continuation b2"
        by blast
      define u where "u = (b0 - 0xE0) * 4096 + (b1 - 0x80) * 64 + (b2 - 0x80)"
      have "utf8_units (b0 # bs) = u # utf8_units r"
        using three bs c by (simp add: u_def)
      moreover from three have rng: "0xE0 \<le> b0" "b0 \<le> 0xEF" by simp_all
      have "u \<noteq> 0" "u < 65536"
        unfolding u_def by (rule unit3_bounds [OF rng c])+
      ultimately show ?thesis
        using bs by (intro exI [of _ "[u]"] exI [of _ 2]) simp
    next
      case False
      then have "utf8_units (b0 # bs) = 0xFFFD # utf8_units bs"
        using three by (cases bs; cases "tl bs") auto
      then show ?thesis by (rule bad)
    qed
  next
    case four
    show ?thesis
    proof (cases "\<exists>b1 b2 b3 r. bs = b1 # b2 # b3 # r \<and> second_of_4 b0 b1 \<and> continuation b2
                    \<and> continuation b3")
      case True
      then obtain b1 b2 b3 r where bs: "bs = b1 # b2 # b3 # r"
        and c: "second_of_4 b0 b1" "continuation b2" "continuation b3"
        by blast
      define cp where "cp = (b0 - 0xF0) * 262144 + (b1 - 0x80) * 4096 + (b2 - 0x80) * 64
                            + (b3 - 0x80)"
      have u: "utf8_units (b0 # bs)
              = [0xD800 + (cp - 0x10000) div 1024, 0xDC00 + (cp - 0x10000) mod 1024]
                @ utf8_units r"
        using four bs c by (simp add: Let_def cp_def)
      have "b0 - 0xF0 \<le> 4" "b1 - 0x80 < 64" "b2 - 0x80 < 64" "b3 - 0x80 < 64"
        using four c by (auto simp: continuation_def second_of_4_def split: if_splits)
      then have "cp < 5 * 262144"
        unfolding cp_def by linarith
      then have "(cp - 0x10000) div 1024 < 0x2000"
        by simp
      then have b: "0xD800 + (cp - 0x10000) div 1024 < 65536"
        "0xDC00 + (cp - 0x10000) mod 1024 < 65536"
        by simp_all
      define hi where "hi = 0xD800 + (cp - 0x10000) div 1024"
      define lo where "lo = 0xDC00 + (cp - 0x10000) mod 1024"
      have "utf8_units (b0 # bs) = [hi, lo] @ utf8_units r"
        using u by (simp add: hi_def lo_def)
      moreover have "hi \<noteq> 0" "lo \<noteq> 0" "hi < 65536" "lo < 65536"
        using b by (simp_all add: hi_def lo_def)
      ultimately show ?thesis
        using bs by (intro exI [of _ "[hi, lo]"] exI [of _ 3]) simp
    next
      case False
      have "utf8_units (b0 # bs) = 0xFFFD # utf8_units bs"
      proof (cases bs)
        case Nil
        with four show ?thesis
          by (subst utf8_units.simps(2)) (simp del: utf8_units.simps)
      next
        case c1: (Cons b1 t1)
        show ?thesis
        proof (cases t1)
          case Nil
          with four c1 show ?thesis
            by (subst utf8_units.simps(2)) (simp del: utf8_units.simps)
        next
          case c2: (Cons b2 t2)
          show ?thesis
          proof (cases t2)
            case Nil
            with four c1 c2 show ?thesis
              by (subst utf8_units.simps(2)) (simp del: utf8_units.simps)
          next
            case c3: (Cons b3 r)
            from False c1 c2 c3
            have "\<not> (second_of_4 b0 b1 \<and> continuation b2 \<and> continuation b3)"
              by blast
            with four c1 c2 c3 show ?thesis
              by (subst utf8_units.simps(2)) (auto simp del: utf8_units.simps)
          qed
        qed
      qed
      then show ?thesis by (rule bad)
    qed
  next
    case none
    then have "utf8_units (b0 # bs) = 0xFFFD # utf8_units bs"
      by (subst utf8_units.simps(2)) (auto simp del: utf8_units.simps)
    then show ?thesis by (rule bad)
  qed
qed

lemma utf8_units_props:
  "length (utf8_units bs) \<le> length bs
   \<and> (\<forall>u\<in>set (utf8_units bs). u < 65536)
   \<and> (0 \<notin> set bs \<longrightarrow> 0 \<notin> set (utf8_units bs))"
proof (induction bs rule: length_induct)
  case (1 bs)
  show ?case
  proof (cases bs)
    case Nil
    then show ?thesis by simp
  next
    case (Cons b0 r)
    obtain us n where s: "utf8_units (b0 # r) = us @ utf8_units (drop n r)"
      "length us \<le> Suc n" "n \<le> length r"
      "\<forall>u\<in>set us. u < 65536 \<and> (b0 \<noteq> 0 \<longrightarrow> u \<noteq> 0)"
      using utf8_units_Cons [of b0 r] by blast
    have "length (drop n r) < length bs" using Cons by simp
    with 1 have ih: "length (utf8_units (drop n r)) \<le> length (drop n r)"
      "\<forall>u\<in>set (utf8_units (drop n r)). u < 65536"
      "0 \<notin> set (drop n r) \<longrightarrow> 0 \<notin> set (utf8_units (drop n r))"
      by blast+
    have z: "0 \<notin> set bs \<Longrightarrow> b0 \<noteq> 0 \<and> 0 \<notin> set (drop n r)"
      using Cons by (auto dest: in_set_dropD)
    have "length (utf8_units bs) \<le> length bs"
      using s ih(1) Cons by simp
    moreover have "\<forall>u\<in>set (utf8_units bs). u < 65536"
      using s ih(2) Cons by auto
    moreover have "0 \<notin> set bs \<longrightarrow> 0 \<notin> set (utf8_units bs)"
      using s(1,4) ih(3) z Cons by auto
    ultimately show ?thesis by blast
  qed
qed

lemma unat_utf8_to_utf16: "map unat (utf8_to_utf16 bs) = utf8_units (map unat bs)"
proof -
  have "\<forall>u\<in>set (utf8_units (map unat bs)). unat (of_nat u :: 16 word) = u"
    using utf8_units_props [of "map unat bs"] by (auto simp: unat_of_nat)
  then show ?thesis
    by (simp add: utf8_to_utf16_def map_idI)
qed

lemma utf16_to_utf8_utf8_to_utf16:
  assumes "well_formed_utf8 (map unat bs)"
  shows "utf16_to_utf8 (utf8_to_utf16 bs) = bs"
proof -
  have "utf16_bytes (map unat (utf8_to_utf16 bs)) = map unat bs"
    using assms by (simp add: unat_utf8_to_utf16 utf16_bytes_utf8_units)
  then show ?thesis
    by (simp add: utf16_to_utf8_def map_idI)
qed

lemma length_utf8_to_utf16: "length (utf8_to_utf16 bs) \<le> length bs"
  using utf8_units_props [of "map unat bs"] by (simp add: utf8_to_utf16_def)

lemma utf8_to_utf16_nonzero:
  assumes "0 \<notin> set bs"
  shows "0 \<notin> set (utf8_to_utf16 bs)"
proof
  assume "0 \<in> set (utf8_to_utf16 bs)"
  then have "unat (0 :: 16 word) \<in> set (map unat (utf8_to_utf16 bs))"
    by (metis image_eqI list.set_map)
  then have "0 \<in> set (utf8_units (map unat bs))"
    by (simp add: unat_utf8_to_utf16)
  moreover have "0 \<notin> set (map unat bs)"
    using assms by (auto simp: unat_eq_0)
  ultimately show False
    using utf8_units_props [of "map unat bs"] by blast
qed

lemma MultiByteToWideChar_UTF8_buffer:
  "MultiByteToWideChar_UTF8 bs (replicate (length bs + 1) 0)
     = utf8_to_utf16 bs @ replicate (length bs + 1 - length (utf8_to_utf16 bs)) 0"
proof (cases "bs = []")
  case True
  then show ?thesis by (simp add: MultiByteToWideChar_UTF8_def utf8_to_utf16_def)
next
  case False
  have "drop (length (utf8_to_utf16 bs)) (replicate (length bs + 1) (0 :: 16 word))
          = replicate (length bs + 1 - length (utf8_to_utf16 bs)) 0"
    by (rule drop_replicate)
  moreover have "\<not> length (replicate (length bs + 1) (0 :: 16 word)) < length (utf8_to_utf16 bs)"
    using length_utf8_to_utf16 [of bs] by simp
  ultimately show ?thesis
    using False unfolding MultiByteToWideChar_UTF8_def Let_def by presburger
qed

lemma method_name_buffer:
  fixes bs :: "8 word list"
  defines "w \<equiv> MultiByteToWideChar_UTF8 bs (replicate (length bs + 1) 0)"
  shows "length w = length bs + 1" and "last w = 0"
    and "0 \<notin> set bs \<Longrightarrow> c_str w = utf8_to_utf16 bs"
proof -
  let ?u = "utf8_to_utf16 bs"
  let ?k = "length bs + 1 - length ?u"
  have w: "w = ?u @ replicate ?k 0"
    unfolding w_def by (rule MultiByteToWideChar_UTF8_buffer)
  have k: "0 < ?k" using length_utf8_to_utf16 [of bs] by simp
  show "length w = length bs + 1"
    using w length_utf8_to_utf16 [of bs] by simp
  show "last w = 0"
    using w k by simp
  show "c_str w = ?u" if "0 \<notin> set bs"
  proof -
    have "\<forall>x\<in>set ?u. x \<noteq> 0" using utf8_to_utf16_nonzero [OF that] by auto
    moreover obtain j where "replicate ?k (0 :: 16 word) = 0 # replicate j 0"
      using k by (cases ?k) auto
    ultimately show ?thesis
      unfolding c_str_def w by (simp add: takeWhile_append2)
  qed
qed

lemma LogCodeEvent_method_load:
  assumes "code_type e = JIT_CODE" and "type e = CODE_ADDED" and "registered p"
    and "code_events_on (state p)" and "length (name e) + 1 < 2 ^ 31"
  shows "\<exists>p' new. LogCodeEvent mb e p = Inr p' \<and> backend p' = backend p @ new \<and> new \<noteq> []
           \<and> is_method_load (last new)
           \<and> field_value ''MethodName'' (last new)
               = Some (WString (mb (name e) (replicate (length (name e) + 1) 0)))"
proof -
  from assms(3) obtain m where m: "isolate_script_map p = Live m"
    by (auto simp: registered_def split: pointer.splits)
  have n: "\<not> (2::nat) ^ 31 \<le> length (name e) + 1" using assms(5) by simp
  show ?thesis
    using assms(1,2,4) m n
    by (auto simp: LogCodeEvent_def Let_def State_def LogEventData_on
        kMethodLoadEvent_simps kSourceLoadEvent_simps is_method_load_def
        field_value_def method_load_event_meta_def
        split: option.splits)
qed

text \<open>
  Claim C7, as amended. For a code-added notification of JIT code whose name is
  well-formed UTF-8 of M bytes with no zero byte among them (the provider registered, a
  session listening), the method-load event carries a wide string of M + 1 code units
  that ends with a zero; its text, the code units before the first zero, re-encoded to
  UTF-8 gives the M bytes of the name exactly.
\<close>

theorem method_name_roundtrip:
  assumes "code_type e = JIT_CODE" and "type e = CODE_ADDED" and "registered p"
    and "code_events_on (state p)" and "length (name e) + 1 < 2 ^ 31"
    and "well_formed_utf8 (map unat (name e))" and "0 \<notin> set (name e)"
  shows "\<exists>p' new w.
           CodeEventHandler MultiByteToWideChar_UTF8 e p = Inr p'
           \<and> backend p' = backend p @ new \<and> new \<noteq> [] \<and> is_method_load (last new)
           \<and> field_value ''MethodName'' (last new) = Some (WString w)
           \<and> length w = length (name e) + 1 \<and> last w = 0
           \<and> utf16_to_utf8 (c_str w) = name e"
proof -
  let ?w = "MultiByteToWideChar_UTF8 (name e) (replicate (length (name e) + 1) 0)"
  obtain p' new where
    r: "LogCodeEvent MultiByteToWideChar_UTF8 e p = Inr p'" "backend p' = backend p @ new"
       "new \<noteq> []" "is_method_load (last new)"
       "field_value ''MethodName'' (last new) = Some (WString ?w)"
    using LogCodeEvent_method_load [OF assms(1-5), of MultiByteToWideChar_UTF8] by blast
  have h: "CodeEventHandler MultiByteToWideChar_UTF8 e p = Inr p'"
    using r(1) assms(4) by (simp add: CodeEventHandler_on)
  have "c_str ?w = utf8_to_utf16 (name e)"
    using assms(7) by (rule method_name_buffer(3))
  then have "utf16_to_utf8 (c_str ?w) = name e"
    using assms(6) by (simp add: utf16_to_utf8_utf8_to_utf16)
  then show ?thesis
    using h r method_name_buffer(1,2) [of "name e"] by blast
qed

theorem method_name_roundtrip_witness:
  "(\<exists>p' new w.
      CodeEventHandler MultiByteToWideChar_UTF8
        ((scenario_event ''f'' NotAString)
           \<lparr>name := [0x66, 0xC3, 0xA9, 0xE2, 0x82, 0xAC, 0xF0, 0x9F, 0x98, 0x80]\<rparr>)
        scenario_process = Inr p'
      \<and> backend p' = backend scenario_process @ new \<and> new \<noteq> [] \<and> is_method_load (last new)
      \<and> field_value ''MethodName'' (last new) = Some (WString w)
      \<and> length w
          = length (name ((scenario_event ''f'' NotAString)
              \<lparr>name := [0x66, 0xC3, 0xA9, 0xE2, 0x82, 0xAC, 0xF0, 0x9F, 0x98, 0x80]\<rparr>)) + 1
      \<and> last w = 0
      \<and> utf16_to_utf8 (c_str w)
          = name ((scenario_event ''f'' NotAString)
              \<lparr>name := [0x66, 0xC3, 0xA9, 0xE2, 0x82, 0xAC, 0xF0, 0x9F, 0x98, 0x80]\<rparr>))
   \<and> MultiByteToWideChar_UTF8 [0x66, 0xC3, 0xA9, 0xE2, 0x82, 0xAC, 0xF0, 0x9F, 0x98, 0x80]
        [0, 0, 0, 0, 0, 0, 0, 0, 0, 0, 0]
      = [0x66, 0xE9, 0x20AC, 0xD83D, 0xDE00, 0, 0, 0, 0, 0, 0]"
proof -
  let ?e = "(scenario_event ''f'' NotAString)
              \<lparr>name := [0x66, 0xC3, 0xA9, 0xE2, 0x82, 0xAC, 0xF0, 0x9F, 0x98, 0x80]\<rparr>"
  have h: "code_type ?e = JIT_CODE" "type ?e = CODE_ADDED" "length (name ?e) + 1 < 2 ^ 31"
    "0 \<notin> set (name ?e)"
    by (simp_all add: scenario_event_def)
  have wf: "well_formed_utf8 (map unat (name ?e))"
    by (simp add: continuation_def second_of_3_def second_of_4_def)
  have run: "MultiByteToWideChar_UTF8 [0x66, 0xC3, 0xA9, 0xE2, 0x82, 0xAC, 0xF0, 0x9F, 0x98, 0x80]
        [0, 0, 0, 0, 0, 0, 0, 0, 0, 0, 0]
      = [0x66, 0xE9, 0x20AC, 0xD83D, 0xDE00, 0, 0, 0, 0, 0, 0]"
    by (simp add: MultiByteToWideChar_UTF8_def utf8_to_utf16_def continuation_def
        second_of_3_def second_of_4_def Let_def)
  note t = method_name_roundtrip [OF h(1) h(2) scenario_registered scenario_on h(3) wf h(4)]
  from t run show ?thesis by (rule conjI)
qed

text \<open>
  The claim as stated, for every UTF-8 name, fails for a name with a zero byte in it: the
  three bytes \<open>61 00 62\<close> are well-formed UTF-8, the event carries the code units
  \<open>61 00 62 00\<close>, whose text is the one unit before the first zero; re-encoded it is one
  byte, and the four code units as a whole re-encode to four bytes, neither the three
  bytes of the name.
\<close>

theorem method_name_roundtrip_counterexample:
  "well_formed_utf8 (map unat [0x61, 0, 0x62 :: 8 word])
   \<and> (case CodeEventHandler MultiByteToWideChar_UTF8
              ((scenario_event ''a'' NotAString)\<lparr>name := [0x61, 0, 0x62]\<rparr>) scenario_process of
         Inr p' \<Rightarrow>
           is_method_load (last (backend p'))
           \<and> field_value ''MethodName'' (last (backend p')) = Some (WString [0x61, 0, 0x62, 0])
       | Inl err \<Rightarrow> False)
   \<and> utf16_to_utf8 (c_str [0x61, 0, 0x62, 0]) = [0x61]
   \<and> utf16_to_utf8 [0x61, 0, 0x62, 0] = [0x61, 0, 0x62, 0]
   \<and> [0x61] \<noteq> [0x61, 0, 0x62 :: 8 word]
   \<and> [0x61, 0, 0x62, 0] \<noteq> [0x61, 0, 0x62 :: 8 word]"
proof -
  have dec: "MultiByteToWideChar_UTF8 [0x61, 0, 0x62] [0, 0, 0, 0] = [0x61, 0, 0x62, 0]"
    by (simp add: MultiByteToWideChar_UTF8_def utf8_to_utf16_def)
  have run: "(case CodeEventHandler MultiByteToWideChar_UTF8
              ((scenario_event ''a'' NotAString)\<lparr>name := [0x61, 0, 0x62]\<rparr>) scenario_process of
         Inr p' \<Rightarrow>
           is_method_load (last (backend p'))
           \<and> field_value ''MethodName'' (last (backend p')) = Some (WString [0x61, 0, 0x62, 0])
       | Inl err \<Rightarrow> False)"
    using dec
    by (simp add: CodeEventHandler_def LogCodeEvent_def LogEventData_def IsEnabled_def Level_def
        State_def scenario_process_def scenario_state_def scenario_event_def kLevelInfo_def
        kSourceLoadEvent_def kMethodLoadEvent_def mkEventInfo_def kJScriptRuntimeKeyword_def
        field_value_def source_load_event_meta_def method_load_event_meta_def is_method_load_def
        Let_def)
  have wf: "well_formed_utf8 (map unat [0x61, 0, 0x62 :: 8 word])"
    by simp
  have re: "utf16_to_utf8 (c_str [0x61, 0, 0x62, 0]) = [0x61]"
    "utf16_to_utf8 [0x61, 0, 0x62, 0] = [0x61, 0, 0x62, 0]"
    by (simp_all add: utf16_to_utf8_def c_str_def)
  show ?thesis
    using wf run re by simp
qed

end
